theory Spec2Isabelle
  imports Main
begin

section \<open>Values, containers and the process state\<close>

text \<open>
  Python objects carry an identity (what \<^verbatim>\<open>id(x)\<close> returns). A value is either a
  non-tensor, a plain tensor, a tensor wrapped for a grad/jvp level, or a tensor batched
  at a vmap level; a wrapper holds the object it wraps, identity included.
  \<^verbatim>\<open>isinstance(x, torch.Tensor)\<close> is \<open>is_Tensor\<close>.
\<close>

type_synonym ident = nat

datatype pyobj =
    NonTensor (oid: ident) int
  | RawTensor (oid: ident) "int list"
  | TensorWrapper (oid: ident) pyobj int
  | BatchedTensor (oid: ident) pyobj int int

fun is_Tensor :: "pyobj \<Rightarrow> bool" where
  "is_Tensor (NonTensor i v) = False"
| "is_Tensor (RawTensor i v) = True"
| "is_Tensor (TensorWrapper i x l) = True"
| "is_Tensor (BatchedTensor i x d l) = True"

datatype container = PyTuple | PyList

datatype 'a pytree = Leaf 'a | Node container "'a pytree list"

datatype TreeSpec = LeafSpec | NodeSpec container "TreeSpec list"

datatype TransformType = Grad | Jvp | Vmap | Functionalize

record interpreter =
  key :: TransformType
  level :: int
  batch_size :: int

text \<open>
  The trace records, in order, the calls made to the wrap/unwrap primitives and to the
  scoped pop of the interpreter stack, each with the level it acts on; \<open>EUser\<close> is for
  user code that wants to leave a mark.
\<close>

datatype event =
    EUnwrapGrad int
  | EWrapGrad int
  | EUnwrapBatched int
  | EAddBatchDim int
  | ELower int
  | ERestore int
  | EUser string

record state =
  dynamic_layer_stack :: "interpreter list"
  autograd_function_allowed :: bool
  grad_mode :: bool
  fwd_grad_mode :: bool
  next_id :: ident
  trace :: "event list"

datatype error =
    RuntimeError string
  | ValueError
  | AssertionError
  | TypeError
  | InternalAssert
  | UserError string

type_synonym 'a M = "state \<Rightarrow> (error + 'a) \<times> state"

definition ret :: "'a \<Rightarrow> 'a M" where
  "ret x s = (Inr x, s)"

definition raise :: "error \<Rightarrow> 'a M" where
  "raise e s = (Inl e, s)"

definition bnd :: "'a M \<Rightarrow> ('a \<Rightarrow> 'b M) \<Rightarrow> 'b M" where
  "bnd m k s = (case m s of (Inl e, s1) \<Rightarrow> (Inl e, s1) | (Inr x, s1) \<Rightarrow> k x s1)"

primrec mapM :: "('a \<Rightarrow> 'b M) \<Rightarrow> 'a list \<Rightarrow> 'b list M" where
  "mapM f [] = ret []"
| "mapM f (x # xs) = bnd (f x) (\<lambda>y. bnd (mapM f xs) (\<lambda>ys. ret (y # ys)))"

text \<open>
  \<^verbatim>\<open>with cm: body\<close>: \<open>enter\<close> runs first and yields what the manager saved; the body
  runs; \<open>exit\<close> runs on every way out of the body, and the body's result or error is
  passed on. If \<open>enter\<close> itself raises, neither the body nor \<open>exit\<close> runs.
\<close>

definition with_ctx :: "'k M \<Rightarrow> ('k \<Rightarrow> state \<Rightarrow> state) \<Rightarrow> 'a M \<Rightarrow> 'a M" where
  "with_ctx enter exit body s =
     (case enter s of
        (Inl e, s1) \<Rightarrow> (Inl e, s1)
      | (Inr k, s1) \<Rightarrow> (case body s1 of (r, s2) \<Rightarrow> (r, exit k s2)))"

section \<open>The structural tree walker\<close>

text \<open>
  Modelled from the spec: \<^verbatim>\<open>torch.utils._pytree\<close> is not among the sources. The spec
  gives \<^verbatim>\<open>flatten(tree) -> (ordered_leaves, shape_descriptor)\<close> and
  \<^verbatim>\<open>unflatten(leaves, shape_descriptor) -> tree\<close>; unflattening a sequence whose
  length is not the descriptor's number of leaves is an error.
\<close>

fun tree_leaves :: "'a pytree \<Rightarrow> 'a list" where
  "tree_leaves (Leaf x) = [x]"
| "tree_leaves (Node c ts) = concat (map tree_leaves ts)"

fun tree_structure :: "'a pytree \<Rightarrow> TreeSpec" where
  "tree_structure (Leaf x) = LeafSpec"
| "tree_structure (Node c ts) = NodeSpec c (map tree_structure ts)"

definition tree_flatten :: "'a pytree \<Rightarrow> 'a list \<times> TreeSpec" where
  "tree_flatten t = (tree_leaves t, tree_structure t)"

fun build :: "TreeSpec \<Rightarrow> 'a list \<Rightarrow> ('a pytree \<times> 'a list) option"
  and build_children :: "TreeSpec list \<Rightarrow> 'a list \<Rightarrow> ('a pytree list \<times> 'a list) option" where
  "build LeafSpec [] = None"
| "build LeafSpec (v # vs) = Some (Leaf v, vs)"
| "build (NodeSpec c cs) vs =
     (case build_children cs vs of
        None \<Rightarrow> None
      | Some (ts, rest) \<Rightarrow> Some (Node c ts, rest))"
| "build_children [] vs = Some ([], vs)"
| "build_children (c # cs) vs =
     (case build c vs of
        None \<Rightarrow> None
      | Some (t, rest) \<Rightarrow>
          (case build_children cs rest of
             None \<Rightarrow> None
           | Some (ts, rest') \<Rightarrow> Some (t # ts, rest')))"

definition tree_unflatten :: "'a list \<Rightarrow> TreeSpec \<Rightarrow> 'a pytree M" where
  "tree_unflatten vs spec =
     (case build spec vs of
        Some (t, []) \<Rightarrow> ret t
      | _ \<Rightarrow> raise ValueError)"

text \<open>\<^verbatim>\<open>tree_all(pred, tree)\<close>: the predicate holds of every leaf.\<close>

definition tree_all :: "('a \<Rightarrow> bool) \<Rightarrow> 'a pytree \<Rightarrow> bool" where
  "tree_all pred t = list_all pred (tree_leaves t)"

text \<open>
  \<^verbatim>\<open>tree_map_only(torch.Tensor, fn, tree)\<close>: flatten, apply \<open>fn\<close> to the tensor leaves
  and keep the others, unflatten.
\<close>

definition tree_map_only_Tensor :: "(pyobj \<Rightarrow> pyobj M) \<Rightarrow> pyobj pytree \<Rightarrow> pyobj pytree M" where
  "tree_map_only_Tensor fn t =
     (case tree_flatten t of (flat_args, spec) \<Rightarrow>
        bnd (mapM (\<lambda>x. if is_Tensor x then fn x else ret x) flat_args)
            (\<lambda>vs. tree_unflatten vs spec))"

text \<open>
  \<^verbatim>\<open>*t\<close>: the members of a tuple (or list). Every use below is on a tree that was
  built from an argument tuple.
\<close>

fun star :: "'a pytree \<Rightarrow> 'a pytree list" where
  "star (Node c ts) = ts"
| "star (Leaf x) = []"

section \<open>The wrap/unwrap primitives\<close>

text \<open>
  Modelled from the spec: the C++ bindings \<^verbatim>\<open>_unwrap_for_grad\<close>, \<^verbatim>\<open>_wrap_for_grad\<close>,
  \<^verbatim>\<open>_unwrap_batched\<close> and \<^verbatim>\<open>_add_batch_dim\<close> are not among the sources. The spec
  gives \<^verbatim>\<open>unwrap_for_grad(value, level)\<close>, \<^verbatim>\<open>wrap_for_grad(value, level)\<close>,
  \<^verbatim>\<open>unwrap_batched(value, level) -> (unwrapped, batch_dim)\<close> and
  \<^verbatim>\<open>create_batched(values, batch_dims, level)\<close>. Unwrapping returns the wrapped
  object itself when the outermost wrapper is of the asked level and the argument
  otherwise; wrapping makes a new object, with an identity not used before.
\<close>

definition log :: "event \<Rightarrow> state \<Rightarrow> state" where
  "log ev s = s\<lparr>trace := trace s @ [ev]\<rparr>"

definition prim_unwrap_for_grad :: "pyobj \<Rightarrow> int \<Rightarrow> pyobj M" where
  "prim_unwrap_for_grad x lvl s =
     (Inr (case x of
             TensorWrapper i v l \<Rightarrow> if l = lvl then v else x
           | _ \<Rightarrow> x),
      log (EUnwrapGrad lvl) s)"

definition prim_wrap_for_grad :: "pyobj \<Rightarrow> int \<Rightarrow> pyobj M" where
  "prim_wrap_for_grad x lvl s =
     (Inr (TensorWrapper (next_id s) x lvl),
      log (EWrapGrad lvl) (s\<lparr>next_id := Suc (next_id s)\<rparr>))"

definition prim_unwrap_batched :: "pyobj \<Rightarrow> int \<Rightarrow> (pyobj \<times> int option) M" where
  "prim_unwrap_batched x lvl s =
     (Inr (case x of
             BatchedTensor i v d l \<Rightarrow> if l = lvl then (v, Some d) else (x, None)
           | _ \<Rightarrow> (x, None)),
      log (EUnwrapBatched lvl) s)"

definition prim_add_batch_dim :: "pyobj \<Rightarrow> int \<Rightarrow> int \<Rightarrow> pyobj M" where
  "prim_add_batch_dim x d lvl s =
     (if is_Tensor x
      then (Inr (BatchedTensor (next_id s) x d lvl),
            log (EAddBatchDim lvl) (s\<lparr>next_id := Suc (next_id s)\<rparr>))
      else (Inl TypeError, s))"

section \<open>Identity preservation for the Grad/Jvp rule\<close>

text \<open>
  The dict comprehension \<^verbatim>\<open>{id(unwrapped): orig for unwrapped, orig in zip(...)}\<close>:
  the pairs are inserted in order, a later pair replacing an earlier one with the same
  key.
\<close>

definition dict_of :: "('k \<times> 'v) list \<Rightarrow> ('k \<rightharpoonup> 'v)" where
  "dict_of ps = foldl (\<lambda>m (k, v). m(k \<mapsto> v)) Map.empty ps"

definition id_to_orig :: "pyobj list \<Rightarrow> pyobj list \<Rightarrow> (ident \<rightharpoonup> pyobj)" where
  "id_to_orig flat_unwrapped flat_orig =
     dict_of (map (\<lambda>(unwrapped, orig). (oid unwrapped, orig)) (zip flat_unwrapped flat_orig))"

definition wrap_output :: "(ident \<rightharpoonup> pyobj) \<Rightarrow> int \<Rightarrow> pyobj \<Rightarrow> pyobj M" where
  "wrap_output unwrapped_input_to_orig_input lvl output =
     (if \<not> is_Tensor output then ret output
      else (case unwrapped_input_to_orig_input (oid output) of
              Some orig \<Rightarrow> ret orig
            | None \<Rightarrow> prim_wrap_for_grad output lvl))"

definition wrap_outputs_maintaining_identity ::
  "pyobj pytree \<Rightarrow> pyobj pytree \<Rightarrow> pyobj pytree \<Rightarrow> int \<Rightarrow> pyobj pytree M" where
  "wrap_outputs_maintaining_identity outputs unwrapped_inputs orig_inputs lvl =
     (let flat_unwrapped_inputs = fst (tree_flatten unwrapped_inputs);
          flat_orig_inputs = fst (tree_flatten orig_inputs);
          unwrapped_input_to_orig_input = id_to_orig flat_unwrapped_inputs flat_orig_inputs
      in (case tree_flatten outputs of (flat_outputs, spec) \<Rightarrow>
            bnd (mapM (wrap_output unwrapped_input_to_orig_input lvl) flat_outputs)
                (\<lambda>result. tree_unflatten result spec)))"

section \<open>Batching helpers of the Vmap rule\<close>

definition unwrap_batched :: "pyobj pytree \<Rightarrow> int \<Rightarrow> (pyobj pytree \<times> int option pytree) M" where
  "unwrap_batched args lvl =
     (case tree_flatten args of (flat_args, spec) \<Rightarrow>
        if length flat_args = 0 then ret (args, Node PyTuple [])
        else bnd (mapM (\<lambda>arg. if is_Tensor arg then prim_unwrap_batched arg lvl
                                 else ret (arg, None)) flat_args)
               (\<lambda>result.
                  bnd (tree_unflatten (map fst result) spec) (\<lambda>output.
                  bnd (tree_unflatten (map snd result) spec) (\<lambda>bdims.
                  ret (output, bdims)))))"

text \<open>
  Modelled from the spec: \<^verbatim>\<open>_broadcast_to_and_flatten\<close> and \<^verbatim>\<open>_create_batched_inputs\<close>
  are not among the sources. A batch-dims descriptor that is a single leaf is repeated
  for every leaf of the output structure; one that is a container must have the
  structure of the output; anything else cannot be broadcast. A leaf with no batch
  dimension is kept as it is, any other leaf is wrapped at the level.
\<close>

fun num_leaves :: "TreeSpec \<Rightarrow> nat" where
  "num_leaves LeafSpec = 1"
| "num_leaves (NodeSpec c cs) = sum_list (map num_leaves cs)"

fun broadcast_to_and_flatten :: "'a pytree \<Rightarrow> TreeSpec \<Rightarrow> 'a list option"
  and broadcast_children :: "'a pytree list \<Rightarrow> TreeSpec list \<Rightarrow> 'a list option" where
  "broadcast_to_and_flatten (Leaf x) spec = Some (replicate (num_leaves spec) x)"
| "broadcast_to_and_flatten (Node c ts) LeafSpec = None"
| "broadcast_to_and_flatten (Node c ts) (NodeSpec c' cs) =
     (if c \<noteq> c' \<or> length ts \<noteq> length cs then None else broadcast_children ts cs)"
| "broadcast_children (t # ts) (c # cs) =
     (case broadcast_to_and_flatten t c of
        None \<Rightarrow> None
      | Some flat \<Rightarrow>
          (case broadcast_children ts cs of
             None \<Rightarrow> None
           | Some r \<Rightarrow> Some (flat @ r)))"
| "broadcast_children ts cs = Some []"

definition create_batched_inputs ::
  "int option list \<Rightarrow> pyobj list \<Rightarrow> int \<Rightarrow> TreeSpec \<Rightarrow> pyobj pytree M" where
  "create_batched_inputs flat_in_dims flat_args lvl args_spec =
     bnd (mapM (\<lambda>(in_dim, arg). case in_dim of
                                   None \<Rightarrow> ret arg
                                 | Some d \<Rightarrow> prim_add_batch_dim arg d lvl)
               (zip flat_in_dims flat_args))
         (\<lambda>batched_inputs. tree_unflatten batched_inputs args_spec)"

definition wrap_batched :: "pyobj pytree \<Rightarrow> int option pytree \<Rightarrow> int \<Rightarrow> pyobj pytree M" where
  "wrap_batched args bdims lvl =
     (case tree_flatten args of (flat_args, spec) \<Rightarrow>
        (case broadcast_to_and_flatten bdims spec of
           None \<Rightarrow> raise AssertionError
         | Some flat_bdims \<Rightarrow> create_batched_inputs flat_bdims flat_args lvl spec))"

definition preserve_output :: "(ident \<rightharpoonup> pyobj) \<Rightarrow> pyobj \<times> pyobj \<Rightarrow> pyobj" where
  "preserve_output unwrapped_input_to_input p =
     (case p of (output, unwrapped_output) \<Rightarrow>
        if \<not> is_Tensor output then output
        else (case unwrapped_input_to_input (oid unwrapped_output) of
                Some inp \<Rightarrow> inp
              | None \<Rightarrow> output))"

definition preserve_object_identity ::
  "pyobj pytree \<Rightarrow> pyobj pytree \<Rightarrow> pyobj pytree \<Rightarrow> pyobj pytree \<Rightarrow> pyobj pytree M" where
  "preserve_object_identity outputs inputs unwrapped_outputs unwrapped_inputs =
     (let flat_outputs = fst (tree_flatten outputs);
          flat_unwrapped_inputs = fst (tree_flatten unwrapped_inputs);
          flat_inputs = fst (tree_flatten inputs);
          unwrapped_input_to_input = id_to_orig flat_unwrapped_inputs flat_inputs
      in (case tree_flatten unwrapped_outputs of (flat_unwrapped_outputs, spec) \<Rightarrow>
            tree_unflatten
              (map (preserve_output unwrapped_input_to_input)
                   (zip flat_outputs flat_unwrapped_outputs))
              spec))"

section \<open>Function descriptors and scoped state\<close>

text \<open>
  An autograd Function class: its name, its static methods, and its public \<^verbatim>\<open>apply\<close>
  entry. A class without a \<^verbatim>\<open>vmap\<close> static method has \<open>vmap = None\<close>. User code runs
  on the process state and may raise.
\<close>

type_synonym ctx = ident

datatype VmapInfo = VmapInfo int

type_synonym args = "pyobj pytree list"

record Function =
  name :: string
  forward :: "args \<Rightarrow> pyobj pytree M"
  setup_context :: "ctx \<Rightarrow> pyobj pytree \<Rightarrow> args \<Rightarrow> pyobj pytree M"
  backward :: "ctx \<Rightarrow> args \<Rightarrow> pyobj pytree M"
  jvp :: "ctx \<Rightarrow> args \<Rightarrow> pyobj pytree M"
  vmap :: "(VmapInfo \<Rightarrow> int option pytree \<Rightarrow> args \<Rightarrow> (pyobj pytree \<times> int option pytree) M) option"
  apply_entry :: "args \<Rightarrow> pyobj pytree M"

text \<open>
  Modelled from the spec: the context managers are not among the sources. Each saves the
  prior value on entry and puts it back on exit: \<^verbatim>\<open>enable_autograd_function()\<close> for the
  flag that allows a single-level node, \<^verbatim>\<open>torch.enable_grad()\<close> and
  \<^verbatim>\<open>_enable_fwd_grad()\<close> for the two gradient modes. \<^verbatim>\<open>interpreter.lower()\<close> takes the
  current interpreter off the stack for the duration of the body, so that the body sees
  the next one, and puts it back on exit: it pops the top of the stack, which in every
  dispatch is the interpreter it is called on, and on exit pushes what it popped onto
  the stack as the body left it.
\<close>

definition enable_autograd_function :: "'a M \<Rightarrow> 'a M" where
  "enable_autograd_function =
     with_ctx (\<lambda>s. (Inr (autograd_function_allowed s), s\<lparr>autograd_function_allowed := True\<rparr>))
              (\<lambda>prev s. s\<lparr>autograd_function_allowed := prev\<rparr>)"

definition set_grad_enabled :: "bool \<Rightarrow> 'a M \<Rightarrow> 'a M" where
  "set_grad_enabled mode =
     with_ctx (\<lambda>s. (Inr (grad_mode s), s\<lparr>grad_mode := mode\<rparr>))
              (\<lambda>prev s. s\<lparr>grad_mode := prev\<rparr>)"

definition set_fwd_grad_enabled :: "bool \<Rightarrow> 'a M \<Rightarrow> 'a M" where
  "set_fwd_grad_enabled mode =
     with_ctx (\<lambda>s. (Inr (fwd_grad_mode s), s\<lparr>fwd_grad_mode := mode\<rparr>))
              (\<lambda>prev s. s\<lparr>fwd_grad_mode := prev\<rparr>)"

definition pop_dynamic_layer_stack :: "interpreter M" where
  "pop_dynamic_layer_stack s =
     (case dynamic_layer_stack s of
        [] \<Rightarrow> (Inl InternalAssert, s)
      | cur # rest \<Rightarrow> (Inr cur, log (ELower (level cur)) (s\<lparr>dynamic_layer_stack := rest\<rparr>)))"

definition push_dynamic_layer_stack :: "interpreter \<Rightarrow> state \<Rightarrow> state" where
  "push_dynamic_layer_stack saved s =
     log (ERestore (level saved)) (s\<lparr>dynamic_layer_stack := saved # dynamic_layer_stack s\<rparr>)"

definition lower :: "interpreter \<Rightarrow> 'a M \<Rightarrow> 'a M" where
  "lower interpreter = with_ctx pop_dynamic_layer_stack push_dynamic_layer_stack"

definition are_functorch_transforms_active :: "state \<Rightarrow> bool" where
  "are_functorch_transforms_active s = (dynamic_layer_stack s \<noteq> [])"

text \<open>
  Modelled from the spec: \<^verbatim>\<open>_SingleLevelFunction.apply\<close> is not among the sources. The
  node's public apply entry makes a fresh context object, turns both gradient modes off
  (the comment in \<^verbatim>\<open>Generated.forward\<close> says so), runs the node's \<open>forward\<close> on the
  operands and then its \<open>setup_context\<close>, and returns what \<open>forward\<close> returned. The
  wiring of the result into the autograd graph is outside this model.
\<close>

definition new_ctx :: "ctx M" where
  "new_ctx s = (Inr (next_id s), s\<lparr>next_id := Suc (next_id s)\<rparr>)"

definition SingleLevelFunction_apply ::
  "(args \<Rightarrow> pyobj pytree M) \<Rightarrow> (ctx \<Rightarrow> pyobj pytree \<Rightarrow> args \<Rightarrow> pyobj pytree M) \<Rightarrow> args \<Rightarrow> pyobj pytree M" where
  "SingleLevelFunction_apply fwd setup operands =
     bnd new_ctx (\<lambda>c.
       set_grad_enabled False (set_fwd_grad_enabled False
         (bnd (fwd operands) (\<lambda>outputs.
          bnd (setup c outputs operands) (\<lambda>u. ret outputs)))))"

section \<open>The dispatch rules\<close>

text \<open>
  The rules call the entry point through its global name, which Python resolves when
  the call is made; here it is the parameter \<open>entry\<close>, and \<open>custom_function_call\<close>
  below passes itself.
\<close>

type_synonym entry = "Function \<Rightarrow> args \<Rightarrow> pyobj pytree M"

definition Generated_forward :: "entry \<Rightarrow> interpreter \<Rightarrow> Function \<Rightarrow> args \<Rightarrow> pyobj pytree M" where
  "Generated_forward entry maybe_interpreter autograd_function operands =
     bnd (tree_map_only_Tensor (\<lambda>x. prim_unwrap_for_grad x (level maybe_interpreter))
            (Node PyTuple operands))
       (\<lambda>unwrapped_operands.
          bnd (set_grad_enabled True (set_fwd_grad_enabled True (lower maybe_interpreter
                 (entry autograd_function (star unwrapped_operands)))))
            (\<lambda>output.
               wrap_outputs_maintaining_identity output unwrapped_operands
                 (Node PyTuple operands) (level maybe_interpreter)))"

definition Generated :: "entry \<Rightarrow> interpreter \<Rightarrow> Function \<Rightarrow> Function" where
  "Generated entry interpreter autograd_function =
     \<lparr> name = ''Generated'',
       forward = Generated_forward entry interpreter autograd_function,
       setup_context = (\<lambda>c outputs operands. setup_context autograd_function c outputs operands),
       backward = (\<lambda>c grads. backward autograd_function c grads),
       jvp = (\<lambda>c tangents. jvp autograd_function c tangents),
       vmap = None,
       apply_entry = SingleLevelFunction_apply
                       (Generated_forward entry interpreter autograd_function)
                       (\<lambda>c outputs operands. setup_context autograd_function c outputs operands) \<rparr>"

definition custom_function_call_grad :: "entry \<Rightarrow> interpreter \<Rightarrow> Function \<Rightarrow> args \<Rightarrow> pyobj pytree M" where
  "custom_function_call_grad entry interpreter autograd_function operands =
     enable_autograd_function
       (apply_entry (Generated entry interpreter autograd_function) operands)"

definition custom_function_call_vmap :: "entry \<Rightarrow> interpreter \<Rightarrow> Function \<Rightarrow> args \<Rightarrow> pyobj pytree M" where
  "custom_function_call_vmap entry interpreter autograd_function operands =
     (case vmap autograd_function of
        None \<Rightarrow>
          raise (RuntimeError
            (''You tried to vmap over '' @ name autograd_function @ '', but ''
             @ ''it does not have a vmap rule defined. Please add a vmap ''
             @ ''staticmethod to it.''))
      | Some vmap_rule \<Rightarrow>
          (let current_level = level interpreter;
               info = VmapInfo (batch_size interpreter)
           in bnd (unwrap_batched (Node PyTuple operands) current_level)
                (\<lambda>(unwrapped_operands, in_dims).
                   if tree_all (\<lambda>dim. dim = None) in_dims
                   then lower interpreter (entry autograd_function operands)
                   else bnd (lower interpreter
                               (vmap_rule info in_dims (star unwrapped_operands)))
                          (\<lambda>(unwrapped_output, out_dims).
                             bnd (wrap_batched unwrapped_output out_dims current_level)
                               (\<lambda>output.
                                  preserve_object_identity output (Node PyTuple operands)
                                    unwrapped_output unwrapped_operands)))))"

definition custom_function_call_functionalize :: "interpreter \<Rightarrow> Function \<Rightarrow> args \<Rightarrow> pyobj pytree M" where
  "custom_function_call_functionalize interpreter autograd_function operands =
     raise (RuntimeError ''NYI: Functionalize rule for custom_function_call'')"

text \<open>
  Modelled from the spec: \<^verbatim>\<open>PyOperator.__call__\<close> is not among the sources. With a
  transform active it takes the current interpreter, the top of the stack, and invokes
  the rule registered for its kind (the \<^verbatim>\<open>py_impl\<close> decorators give the table) with the
  interpreter, the descriptor and the operands.
\<close>

definition PyOperator_call :: "entry \<Rightarrow> Function \<Rightarrow> args \<Rightarrow> pyobj pytree M" where
  "PyOperator_call entry autograd_function operands s =
     (case dynamic_layer_stack s of
        [] \<Rightarrow> (Inl InternalAssert, s)
      | interpreter # rest \<Rightarrow>
          (case key interpreter of
             Grad \<Rightarrow> custom_function_call_grad entry interpreter autograd_function operands s
           | Jvp \<Rightarrow> custom_function_call_grad entry interpreter autograd_function operands s
           | Vmap \<Rightarrow> custom_function_call_vmap entry interpreter autograd_function operands s
           | Functionalize \<Rightarrow>
               custom_function_call_functionalize interpreter autograd_function operands s))"

section \<open>Pure views of the helpers\<close>

text \<open>
  What the loop of \<open>wrap_outputs_maintaining_identity\<close> yields, as pure functions of the
  first unused identity: the list of results, and how many new wrappers it makes.
\<close>

fun wrapped_from :: "(ident \<rightharpoonup> pyobj) \<Rightarrow> int \<Rightarrow> ident \<Rightarrow> pyobj list \<Rightarrow> pyobj list" where
  "wrapped_from d lvl n [] = []"
| "wrapped_from d lvl n (x # xs) =
     (if \<not> is_Tensor x then x # wrapped_from d lvl n xs
      else (case d (oid x) of
              Some orig \<Rightarrow> orig # wrapped_from d lvl n xs
            | None \<Rightarrow> TensorWrapper n x lvl # wrapped_from d lvl (Suc n) xs))"

definition fresh_count :: "(ident \<rightharpoonup> pyobj) \<Rightarrow> pyobj list \<Rightarrow> nat" where
  "fresh_count d xs = length (filter (\<lambda>x. is_Tensor x \<and> d (oid x) = None) xs)"

text \<open>What the two unwrapping primitives return, without the state.\<close>

fun grad_value :: "int \<Rightarrow> pyobj \<Rightarrow> pyobj" where
  "grad_value lvl (TensorWrapper i v l) = (if l = lvl then v else TensorWrapper i v l)"
| "grad_value lvl x = x"

fun batch_value :: "int \<Rightarrow> pyobj \<Rightarrow> pyobj" where
  "batch_value lvl (BatchedTensor i v d l) = (if l = lvl then v else BatchedTensor i v d l)"
| "batch_value lvl x = x"

fun batch_dim :: "int \<Rightarrow> pyobj \<Rightarrow> int option" where
  "batch_dim lvl (BatchedTensor i v d l) = (if l = lvl then Some d else None)"
| "batch_dim lvl x = None"

definition tensor_count :: "pyobj list \<Rightarrow> nat" where
  "tensor_count xs = length (filter is_Tensor xs)"

section \<open>Assumptions on user code\<close>



text \<open>
  User code that leaves in the trace nothing but marks of its own: it does not call the
  wrap/unwrap primitives or the stack itself.
\<close>

definition only_user_events :: "'a M \<Rightarrow> bool" where
  "only_user_events m = (\<forall>s. \<exists>us. trace (snd (m s)) = trace s @ map EUser us)"

definition logs_as_user :: "Function \<Rightarrow> bool" where
  "logs_as_user f =
     ((\<forall>operands. only_user_events (apply_entry f operands))
      \<and> (\<forall>c outputs operands. only_user_events (setup_context f c outputs operands))
      \<and> (\<forall>g info in_dims operands. vmap f = Some g \<longrightarrow> only_user_events (g info in_dims operands)))"

section \<open>The Vmap identity step in the words of the spec\<close>

text \<open>
  The identity-preservation step of the Vmap rule as the spec words it, "comparing
  wrapped outputs against wrapped inputs (not unwrapped)": the dictionary is keyed by the
  identity of the wrapped inputs and looked up with the identity of the wrapped output.
\<close>

definition preserve_object_identity_wrapped_against_wrapped ::
  "pyobj pytree \<Rightarrow> pyobj pytree \<Rightarrow> pyobj pytree \<Rightarrow> pyobj pytree \<Rightarrow> pyobj pytree M" where
  "preserve_object_identity_wrapped_against_wrapped outputs inputs unwrapped_outputs unwrapped_inputs =
     (let flat_outputs = fst (tree_flatten outputs);
          flat_inputs = fst (tree_flatten inputs);
          input_to_input = id_to_orig flat_inputs flat_inputs
      in (case tree_flatten unwrapped_outputs of (flat_unwrapped_outputs, spec) \<Rightarrow>
            tree_unflatten
              (map (\<lambda>output. if \<not> is_Tensor output then output
                              else (case input_to_input (oid output) of
                                      Some inp \<Rightarrow> inp
                                    | None \<Rightarrow> output))
                   flat_outputs)
              spec))"

section \<open>Example values\<close>

text \<open>
  Two plain tensors of equal contents and distinct identity, a non-tensor, wrappers of
  the first tensor at a grad level 2 and at a vmap level 1, a state, interpreters, and a
  descriptor whose \<open>apply\<close> returns its operands and whose \<open>vmap\<close> returns its operands and
  one more tensor, batched at dimension 0.
\<close>

definition ex_x0 :: pyobj where "ex_x0 = RawTensor 0 [1, 2]"
definition ex_x1 :: pyobj where "ex_x1 = TensorWrapper 1 ex_x0 2"
definition ex_y0 :: pyobj where "ex_y0 = RawTensor 3 [1, 2]"
definition ex_n0 :: pyobj where "ex_n0 = NonTensor 4 7"
definition ex_xb :: pyobj where "ex_xb = BatchedTensor 1 ex_x0 0 1"
definition ex_xgb :: pyobj where "ex_xgb = TensorWrapper 2 ex_xb 2"
definition ex_x2 :: pyobj where "ex_x2 = TensorWrapper 5 ex_x0 2"
definition ex_xb2 :: pyobj where "ex_xb2 = BatchedTensor 6 ex_x0 0 1"

definition ex_state :: "interpreter list \<Rightarrow> state" where
  "ex_state st =
     \<lparr> dynamic_layer_stack = st, autograd_function_allowed = False, grad_mode = True,
       fwd_grad_mode = True, next_id = 10, trace = [] \<rparr>"

definition ex_interp :: "TransformType \<Rightarrow> int \<Rightarrow> interpreter" where
  "ex_interp k l = \<lparr> key = k, level = l, batch_size = 3 \<rparr>"

definition ex_apply :: "args \<Rightarrow> pyobj pytree M" where
  "ex_apply operands s = (Inr (Node PyTuple operands), log (EUser ''apply'') s)"

definition ex_vmap ::
  "VmapInfo \<Rightarrow> int option pytree \<Rightarrow> args \<Rightarrow> (pyobj pytree \<times> int option pytree) M" where
  "ex_vmap info in_dims operands s =
     (Inr (Node PyTuple (operands @ [Leaf ex_y0]), Node PyTuple (star in_dims @ [Leaf (Some 0)])),
      log (EUser ''vmap'') s)"

definition ex_f :: Function where
  "ex_f =
     \<lparr> name = ''MyFn'',
       forward = ex_apply,
       setup_context = (\<lambda>c outputs operands. ret (Leaf (NonTensor 5 0))),
       backward = (\<lambda>c grads. ret (Node PyTuple grads)),
       jvp = (\<lambda>c tangents. ret (Node PyTuple tangents)),
       vmap = Some ex_vmap,
       apply_entry = ex_apply \<rparr>"



section \<open>Flattening and unflattening\<close>

lemma build_children_roundtrip:
  assumes "\<And>t rest. t \<in> set ts \<Longrightarrow> build (tree_structure t) (tree_leaves t @ rest) = Some (t, rest)"
  shows "build_children (map tree_structure ts) (concat (map tree_leaves ts) @ rest) = Some (ts, rest)"
  using assms by (induction ts arbitrary: rest) simp_all

lemma build_roundtrip: "build (tree_structure t) (tree_leaves t @ rest) = Some (t, rest)"
  by (induction t arbitrary: rest) (simp_all add: build_children_roundtrip)

lemma tree_eqI:
  assumes "tree_structure a = tree_structure b" and "tree_leaves a = tree_leaves b"
  shows "a = b"
proof -
  have "build (tree_structure a) (tree_leaves a @ []) = Some (a, [])"
    by (rule build_roundtrip)
  moreover have "build (tree_structure b) (tree_leaves b @ []) = Some (b, [])"
    by (rule build_roundtrip)
  ultimately show ?thesis using assms by simp
qed

lemma build_children_fill:
  assumes "\<And>t (vs::'b list) rest. t \<in> set ts \<Longrightarrow> length vs = length (tree_leaves t) \<Longrightarrow>
             \<exists>t'. build (tree_structure t) (vs @ rest) = Some (t', rest) \<and> tree_leaves t' = vs
                  \<and> tree_structure t' = tree_structure t"
    and "length (vs::'b list) = length (concat (map tree_leaves ts))"
  shows "\<exists>ts'. build_children (map tree_structure ts) (vs @ rest) = Some (ts', rest)
               \<and> concat (map tree_leaves ts') = vs
               \<and> map tree_structure ts' = map tree_structure ts"
  using assms
proof (induction ts arbitrary: vs)
  case Nil
  then show ?case by simp
next
  case (Cons t ts)
  let ?n = "length (tree_leaves t)"
  have len1: "length (take ?n vs) = length (tree_leaves t)"
    using Cons.prems(2) by simp
  have len2: "length (drop ?n vs) = length (concat (map tree_leaves ts))"
    using Cons.prems(2) by simp
  obtain t' where t': "build (tree_structure t) (take ?n vs @ (drop ?n vs @ rest)) = Some (t', drop ?n vs @ rest)"
      "tree_leaves t' = take ?n vs" "tree_structure t' = tree_structure t"
    using Cons.prems(1)[of t "take ?n vs" "drop ?n vs @ rest"] len1 by auto
  obtain ts' where ts': "build_children (map tree_structure ts) (drop ?n vs @ rest) = Some (ts', rest)"
      "concat (map tree_leaves ts') = drop ?n vs" "map tree_structure ts' = map tree_structure ts"
    using Cons.IH[of "drop ?n vs"] Cons.prems(1) len2 by auto
  have eq: "take ?n vs @ (drop ?n vs @ rest) = vs @ rest"
    by simp
  have "build (tree_structure t) (vs @ rest) = Some (t', drop ?n vs @ rest)"
    using t'(1) unfolding eq .
  then have "build_children (map tree_structure (t # ts)) (vs @ rest) = Some (t' # ts', rest)"
    using ts'(1) by simp
  moreover have "concat (map tree_leaves (t' # ts')) = vs"
    using t'(2) ts'(2) by simp
  moreover have "map tree_structure (t' # ts') = map tree_structure (t # ts)"
    using t'(3) ts'(3) by simp
  ultimately show ?case by blast
qed

lemma build_fill:
  "length vs = length (tree_leaves t) \<Longrightarrow>
   \<exists>t'. build (tree_structure t) (vs @ rest) = Some (t', rest) \<and> tree_leaves t' = vs
        \<and> tree_structure t' = tree_structure t"
proof (induction t arbitrary: vs rest)
  case (Leaf x)
  then show ?case by (cases vs) simp_all
next
  case (Node c ts)
  have "\<exists>ts'. build_children (map tree_structure ts) (vs @ rest) = Some (ts', rest)
               \<and> concat (map tree_leaves ts') = vs
               \<and> map tree_structure ts' = map tree_structure ts"
    by (rule build_children_fill) (use Node in auto)
  then show ?case by auto
qed

lemma tree_unflatten_fill:
  assumes "length vs = length (tree_leaves t)"
  shows "\<exists>t'. tree_unflatten vs (tree_structure t) = ret t' \<and> tree_leaves t' = vs
        \<and> tree_structure t' = tree_structure t"
proof -
  obtain t' where "build (tree_structure t) (vs @ []) = Some (t', [])" "tree_leaves t' = vs"
      "tree_structure t' = tree_structure t"
    using build_fill[OF assms, of "[]"] by blast
  then show ?thesis by (auto simp: tree_unflatten_def)
qed

lemma tree_leaves_map [simp]: "tree_leaves (map_pytree f t) = map f (tree_leaves t)"
  by (induction t) (simp_all add: map_concat comp_def cong: map_cong)

lemma tree_structure_map [simp]: "tree_structure (map_pytree f t) = tree_structure t"
  by (induction t) (simp_all cong: map_cong)

lemma tree_unflatten_map:
  "tree_unflatten (map f (tree_leaves t)) (tree_structure t) = ret (map_pytree f t)"
  using build_roundtrip[of "map_pytree f t" "[]"] by (simp add: tree_unflatten_def)

section \<open>The identity dictionary\<close>

lemma dict_of_snoc: "dict_of (ps @ [(k, v)]) = (dict_of ps)(k \<mapsto> v)"
  by (simp add: dict_of_def)

lemma dict_of_Nil [simp]: "dict_of [] = Map.empty"
  by (simp add: dict_of_def)

lemma dict_of_None: "dict_of ps k = None \<longleftrightarrow> (\<forall>j<length ps. fst (ps ! j) \<noteq> k)"
proof (induction ps rule: rev_induct)
  case Nil
  then show ?case by simp
next
  case (snoc p ps)
  obtain a b where p: "p = (a, b)" by (cases p)
  show ?case
  proof (cases "a = k")
    case True
    then show ?thesis using p by (auto simp: dict_of_snoc intro: exI[of _ "length ps"])
  next
    case False
    then show ?thesis using p snoc
      by (auto simp: dict_of_snoc nth_append less_Suc_eq)
  qed
qed

lemma dict_of_last:
  assumes "j < length ps" and "fst (ps ! j) = k"
    and "\<And>j'. j < j' \<Longrightarrow> j' < length ps \<Longrightarrow> fst (ps ! j') \<noteq> k"
  shows "dict_of ps k = Some (snd (ps ! j))"
  using assms
proof (induction ps rule: rev_induct)
  case Nil
  then show ?case by simp
next
  case (snoc p ps)
  obtain a b where p: "p = (a, b)" by (cases p)
  show ?case
  proof (cases "j = length ps")
    case True
    then show ?thesis using snoc.prems p by (simp add: dict_of_snoc)
  next
    case False
    then have jl: "j < length ps" using snoc.prems(1) by simp
    have "a \<noteq> k" using snoc.prems(3)[of "length ps"] jl p by simp
    moreover have "dict_of ps k = Some (snd (ps ! j))"
    proof (rule snoc.IH[OF jl])
      show "fst (ps ! j) = k" using snoc.prems(2) jl by (simp add: nth_append)
    next
      fix j' assume "j < j'" "j' < length ps"
      then show "fst (ps ! j') \<noteq> k" using snoc.prems(3)[of j'] by (simp add: nth_append)
    qed
    ultimately show ?thesis using p jl by (simp add: dict_of_snoc nth_append)
  qed
qed

lemma dict_of_Some:
  assumes "dict_of ps k = Some v"
  shows "\<exists>j<length ps. fst (ps ! j) = k \<and> v = snd (ps ! j)
            \<and> (\<forall>j'. j < j' \<and> j' < length ps \<longrightarrow> fst (ps ! j') \<noteq> k)"
  using assms
proof (induction ps rule: rev_induct)
  case Nil
  then show ?case by simp
next
  case (snoc p ps)
  obtain a b where p: "p = (a, b)" by (cases p)
  show ?case
  proof (cases "a = k")
    case True
    then have "v = b" using snoc.prems p by (simp add: dict_of_snoc)
    then show ?thesis using True p
      by (intro exI[of _ "length ps"]) auto
  next
    case False
    then have "dict_of ps k = Some v" using snoc.prems p by (simp add: dict_of_snoc)
    then obtain j where j: "j < length ps" "fst (ps ! j) = k" "v = snd (ps ! j)"
        "\<forall>j'. j < j' \<and> j' < length ps \<longrightarrow> fst (ps ! j') \<noteq> k"
      using snoc.IH by blast
    show ?thesis
    proof (intro exI[of _ j] conjI allI impI)
      show "j < length (ps @ [p])" using j(1) by simp
      show "fst ((ps @ [p]) ! j) = k" using j by (simp add: nth_append)
      show "v = snd ((ps @ [p]) ! j)" using j by (simp add: nth_append)
    next
      fix j' assume "j < j' \<and> j' < length (ps @ [p])"
      then show "fst ((ps @ [p]) ! j') \<noteq> k"
        using j(4) False p by (cases "j' = length ps") (auto simp: nth_append)
    qed
  qed
qed

lemma id_to_orig_None:
  "id_to_orig us os k = None \<longleftrightarrow> (\<forall>j. j < length us \<and> j < length os \<longrightarrow> oid (us ! j) \<noteq> k)"
  by (auto simp: id_to_orig_def dict_of_None)

lemma id_to_orig_last:
  assumes "j < length us" "j < length os" "oid (us ! j) = k"
    and "\<And>j'. j < j' \<Longrightarrow> j' < length us \<Longrightarrow> j' < length os \<Longrightarrow> oid (us ! j') \<noteq> k"
  shows "id_to_orig us os k = Some (os ! j)"
proof -
  let ?ps = "map (\<lambda>(unwrapped, orig). (oid unwrapped, orig)) (zip us os)"
  have "dict_of ?ps k = Some (snd (?ps ! j))"
    by (rule dict_of_last) (use assms in auto)
  then show ?thesis using assms(1,2) by (simp add: id_to_orig_def)
qed

lemma id_to_orig_Some:
  assumes "id_to_orig us os k = Some v"
  shows "\<exists>j. j < length us \<and> j < length os \<and> oid (us ! j) = k \<and> v = os ! j
            \<and> (\<forall>j'. j < j' \<and> j' < length us \<and> j' < length os \<longrightarrow> oid (us ! j') \<noteq> k)"
proof -
  let ?ps = "map (\<lambda>(unwrapped, orig). (oid unwrapped, orig)) (zip us os)"
  from assms have "dict_of ?ps k = Some v" by (simp add: id_to_orig_def)
  from dict_of_Some[OF this] obtain j where j: "j < length ?ps" "fst (?ps ! j) = k" "v = snd (?ps ! j)"
      "\<forall>j'. j < j' \<and> j' < length ?ps \<longrightarrow> fst (?ps ! j') \<noteq> k" by blast
  show ?thesis
  proof (intro exI[of _ j] conjI allI impI)
    show "j < length us" "j < length os" using j(1) by simp_all
    show "oid (us ! j) = k" using j(1,2) by simp
    show "v = os ! j" using j(1,3) by simp
  next
    fix j' assume "j < j' \<and> j' < length us \<and> j' < length os"
    then show "oid (us ! j') \<noteq> k" using j(4) by auto
  qed
qed

section \<open>Effect of the wrapping loop\<close>

lemma fresh_count_simps [simp]:
  "fresh_count d [] = 0"
  "fresh_count d (x # xs) = (if is_Tensor x \<and> d (oid x) = None then Suc (fresh_count d xs) else fresh_count d xs)"
  by (simp_all add: fresh_count_def)

lemma bnd_ret [simp]: "bnd (ret x) k s = k x s"
  by (simp add: bnd_def ret_def)

lemma bnd_raise [simp]: "bnd (raise e) k s = (Inl e, s)"
  by (simp add: bnd_def raise_def)

lemma bnd_Inr: "m s = (Inr x, s1) \<Longrightarrow> bnd m k s = k x s1"
  by (simp add: bnd_def)

lemma bnd_Inl: "m s = (Inl e, s1) \<Longrightarrow> bnd m k s = (Inl e, s1)"
  by (simp add: bnd_def)

lemma mapM_wrap_output:
  "mapM (wrap_output d lvl) xs s =
     (Inr (wrapped_from d lvl (next_id s) xs),
      s\<lparr>next_id := next_id s + fresh_count d xs,
        trace := trace s @ replicate (fresh_count d xs) (EWrapGrad lvl)\<rparr>)"
proof (induction xs arbitrary: s)
  case Nil
  then show ?case by (simp add: ret_def)
next
  case (Cons x xs)
  show ?case
  proof (cases "is_Tensor x \<and> d (oid x) = None")
    case True
    then have "wrap_output d lvl x s =
        (Inr (TensorWrapper (next_id s) x lvl), log (EWrapGrad lvl) (s\<lparr>next_id := Suc (next_id s)\<rparr>))"
      by (simp add: wrap_output_def prim_wrap_for_grad_def)
    then show ?thesis using True
      by (simp add: bnd_Inr Cons.IH ret_def log_def)
  next
    case False
    then have "wrap_output d lvl x s = (Inr (hd (wrapped_from d lvl (next_id s) [x])), s)"
      by (auto simp: wrap_output_def ret_def split: option.splits)
    then show ?thesis using False
      by (auto simp add: bnd_Inr Cons.IH ret_def split: option.splits)
  qed
qed

lemma length_wrapped_from [simp]: "length (wrapped_from d lvl n xs) = length xs"
  by (induction xs arbitrary: n) (simp_all split: option.splits)

lemma wrapped_from_nth:
  "i < length xs \<Longrightarrow>
   wrapped_from d lvl n xs ! i =
     (if \<not> is_Tensor (xs ! i) then xs ! i
      else (case d (oid (xs ! i)) of
              Some orig \<Rightarrow> orig
            | None \<Rightarrow> TensorWrapper (n + fresh_count d (take i xs)) (xs ! i) lvl))"
proof (induction xs arbitrary: n i)
  case Nil
  then show ?case by simp
next
  case (Cons x xs)
  show ?case
  proof (cases i)
    case 0
    then show ?thesis by (simp split: option.splits)
  next
    case (Suc i')
    then have "i' < length xs" using Cons.prems by simp
    from Cons.IH[OF this] show ?thesis using Suc
      by (simp split: option.splits)
  qed
qed

lemma fresh_count_append: "fresh_count d (xs @ ys) = fresh_count d xs + fresh_count d ys"
  by (simp add: fresh_count_def)

lemma fresh_count_take_less:
  assumes "i < length xs" "is_Tensor (xs ! i)" "d (oid (xs ! i)) = None"
  shows "fresh_count d (take i xs) < fresh_count d xs"
proof -
  have "xs = take i xs @ (xs ! i # drop (Suc i) xs)"
    using assms(1) by (rule id_take_nth_drop)
  then have "fresh_count d xs = fresh_count d (take i xs) + fresh_count d (xs ! i # drop (Suc i) xs)"
    by (metis fresh_count_append)
  then show ?thesis using assms(2,3) by simp
qed

lemma wrap_outputs_maintaining_identity_effect:
  "\<exists>result.
     wrap_outputs_maintaining_identity outputs unwrapped_inputs orig_inputs lvl s =
       (Inr result,
        s\<lparr>next_id := next_id s
             + fresh_count (id_to_orig (tree_leaves unwrapped_inputs) (tree_leaves orig_inputs))
                 (tree_leaves outputs),
          trace := trace s @ replicate
             (fresh_count (id_to_orig (tree_leaves unwrapped_inputs) (tree_leaves orig_inputs))
                 (tree_leaves outputs)) (EWrapGrad lvl)\<rparr>)
     \<and> tree_leaves result =
         wrapped_from (id_to_orig (tree_leaves unwrapped_inputs) (tree_leaves orig_inputs))
           lvl (next_id s) (tree_leaves outputs)
     \<and> tree_structure result = tree_structure outputs"
proof -
  let ?d = "id_to_orig (tree_leaves unwrapped_inputs) (tree_leaves orig_inputs)"
  let ?ys = "wrapped_from ?d lvl (next_id s) (tree_leaves outputs)"
  obtain t' where t': "tree_unflatten ?ys (tree_structure outputs) = ret t'"
      "tree_leaves t' = ?ys" "tree_structure t' = tree_structure outputs"
    using tree_unflatten_fill[of ?ys outputs] by auto
  show ?thesis
    by (rule exI[of _ t'])
       (simp add: wrap_outputs_maintaining_identity_def tree_flatten_def Let_def
          bnd_Inr[OF mapM_wrap_output] t' ret_def)
qed

section \<open>Identity preservation: what each leaf becomes\<close>

lemma preserve_object_identity_effect:
  assumes "length (tree_leaves unwrapped_outputs) \<le> length (tree_leaves outputs)"
  shows "\<exists>result.
     preserve_object_identity outputs inputs unwrapped_outputs unwrapped_inputs s = (Inr result, s)
     \<and> tree_leaves result =
         map (preserve_output (id_to_orig (tree_leaves unwrapped_inputs) (tree_leaves inputs)))
           (zip (tree_leaves outputs) (tree_leaves unwrapped_outputs))
     \<and> tree_structure result = tree_structure unwrapped_outputs"
proof -
  let ?d = "id_to_orig (tree_leaves unwrapped_inputs) (tree_leaves inputs)"
  let ?ys = "map (preserve_output ?d) (zip (tree_leaves outputs) (tree_leaves unwrapped_outputs))"
  have "length ?ys = length (tree_leaves unwrapped_outputs)"
    using assms by simp
  then obtain t' where t': "tree_unflatten ?ys (tree_structure unwrapped_outputs) = ret t'"
      "tree_leaves t' = ?ys" "tree_structure t' = tree_structure unwrapped_outputs"
    using tree_unflatten_fill[of ?ys unwrapped_outputs] by auto
  show ?thesis
    by (rule exI[of _ t'])
       (simp add: preserve_object_identity_def tree_flatten_def Let_def t' ret_def)
qed

text \<open>
  C1: \<open>wrap_outputs_maintaining_identity\<close> always returns; the result has the tree shape
  of the outputs; a leaf that is not a tensor is unchanged; a tensor leaf that is the
  same object as an unwrapped input paired with an original input is replaced by an
  original input paired with that object; any other tensor leaf, whatever its value,
  is a new wrapper of it at the level. Identity is \<open>oid\<close>; the pairs are those of the
  \<^verbatim>\<open>zip\<close> of the two flattened input sequences.
\<close>

theorem wrap_outputs_maintaining_identity_leaves:
  "\<exists>result s'.
     wrap_outputs_maintaining_identity outputs unwrapped_inputs orig_inputs lvl s = (Inr result, s')
     \<and> tree_structure result = tree_structure outputs
     \<and> length (tree_leaves result) = length (tree_leaves outputs)
     \<and> (\<forall>i<length (tree_leaves outputs).
           (\<not> is_Tensor (tree_leaves outputs ! i) \<longrightarrow>
              tree_leaves result ! i = tree_leaves outputs ! i)
         \<and> (is_Tensor (tree_leaves outputs ! i) \<longrightarrow>
              ((\<exists>j. j < length (tree_leaves unwrapped_inputs) \<and> j < length (tree_leaves orig_inputs)
                    \<and> oid (tree_leaves unwrapped_inputs ! j) = oid (tree_leaves outputs ! i)) \<longrightarrow>
               (\<exists>j. j < length (tree_leaves unwrapped_inputs) \<and> j < length (tree_leaves orig_inputs)
                    \<and> oid (tree_leaves unwrapped_inputs ! j) = oid (tree_leaves outputs ! i)
                    \<and> tree_leaves result ! i = tree_leaves orig_inputs ! j))
            \<and> ((\<forall>j. j < length (tree_leaves unwrapped_inputs) \<and> j < length (tree_leaves orig_inputs)
                    \<longrightarrow> oid (tree_leaves unwrapped_inputs ! j) \<noteq> oid (tree_leaves outputs ! i)) \<longrightarrow>
               (\<exists>k. next_id s \<le> k \<and> k < next_id s'
                    \<and> tree_leaves result ! i = TensorWrapper k (tree_leaves outputs ! i) lvl))))"
proof -
  let ?us = "tree_leaves unwrapped_inputs" and ?os = "tree_leaves orig_inputs"
  let ?xs = "tree_leaves outputs"
  let ?d = "id_to_orig ?us ?os"
  let ?s' = "s\<lparr>next_id := next_id s + fresh_count ?d ?xs,
               trace := trace s @ replicate (fresh_count ?d ?xs) (EWrapGrad lvl)\<rparr>"
  obtain result where r:
      "wrap_outputs_maintaining_identity outputs unwrapped_inputs orig_inputs lvl s = (Inr result, ?s')"
      "tree_leaves result = wrapped_from ?d lvl (next_id s) ?xs"
      "tree_structure result = tree_structure outputs"
    using wrap_outputs_maintaining_identity_effect by blast
  have leaf: "(\<not> is_Tensor (?xs ! i) \<longrightarrow> tree_leaves result ! i = ?xs ! i)
         \<and> (is_Tensor (?xs ! i) \<longrightarrow>
              ((\<exists>j. j < length ?us \<and> j < length ?os \<and> oid (?us ! j) = oid (?xs ! i)) \<longrightarrow>
               (\<exists>j. j < length ?us \<and> j < length ?os \<and> oid (?us ! j) = oid (?xs ! i)
                    \<and> tree_leaves result ! i = ?os ! j))
            \<and> ((\<forall>j. j < length ?us \<and> j < length ?os \<longrightarrow> oid (?us ! j) \<noteq> oid (?xs ! i)) \<longrightarrow>
               (\<exists>k. next_id s \<le> k \<and> k < next_id ?s'
                    \<and> tree_leaves result ! i = TensorWrapper k (?xs ! i) lvl)))"
    if i: "i < length ?xs" for i
  proof (cases "is_Tensor (?xs ! i)")
    case False
    then show ?thesis using i by (simp add: r(2) wrapped_from_nth)
  next
    case True
    show ?thesis
    proof (cases "?d (oid (?xs ! i))")
      case None
      then have no: "\<forall>j. j < length ?us \<and> j < length ?os \<longrightarrow> oid (?us ! j) \<noteq> oid (?xs ! i)"
        by (simp add: id_to_orig_None)
      have "tree_leaves result ! i = TensorWrapper (next_id s + fresh_count ?d (take i ?xs)) (?xs ! i) lvl"
        using i True None by (simp add: r(2) wrapped_from_nth)
      moreover have "fresh_count ?d (take i ?xs) < fresh_count ?d ?xs"
        using i True None by (rule fresh_count_take_less)
      ultimately have "\<exists>k. next_id s \<le> k \<and> k < next_id ?s'
                    \<and> tree_leaves result ! i = TensorWrapper k (?xs ! i) lvl"
        by (intro exI[of _ "next_id s + fresh_count ?d (take i ?xs)"]) simp
      then show ?thesis using True no by blast
    next
      case (Some v)
      then obtain j where j: "j < length ?us" "j < length ?os" "oid (?us ! j) = oid (?xs ! i)"
          "v = ?os ! j"
        using id_to_orig_Some[OF Some] by blast
      have "tree_leaves result ! i = v"
        using i True Some by (simp add: r(2) wrapped_from_nth)
      then show ?thesis using True j by blast
    qed
  qed
  show ?thesis
  proof (intro exI[of _ result] exI[of _ ?s'] conjI)
    show "wrap_outputs_maintaining_identity outputs unwrapped_inputs orig_inputs lvl s = (Inr result, ?s')"
      by (rule r(1))
    show "tree_structure result = tree_structure outputs" by (rule r(3))
    show "length (tree_leaves result) = length ?xs" by (simp add: r(2))
    show "\<forall>i<length ?xs.
           (\<not> is_Tensor (?xs ! i) \<longrightarrow> tree_leaves result ! i = ?xs ! i)
         \<and> (is_Tensor (?xs ! i) \<longrightarrow>
              ((\<exists>j. j < length ?us \<and> j < length ?os \<and> oid (?us ! j) = oid (?xs ! i)) \<longrightarrow>
               (\<exists>j. j < length ?us \<and> j < length ?os \<and> oid (?us ! j) = oid (?xs ! i)
                    \<and> tree_leaves result ! i = ?os ! j))
            \<and> ((\<forall>j. j < length ?us \<and> j < length ?os \<longrightarrow> oid (?us ! j) \<noteq> oid (?xs ! i)) \<longrightarrow>
               (\<exists>k. next_id s \<le> k \<and> k < next_id ?s'
                    \<and> tree_leaves result ! i = TensorWrapper k (?xs ! i) lvl)))"
      using leaf by blast
  qed
qed

lemmas ex_defs = ex_x0_def ex_x1_def ex_y0_def ex_n0_def ex_state_def

lemmas run_defs = wrap_outputs_maintaining_identity_def tree_flatten_def id_to_orig_def dict_of_def
  bnd_def ret_def raise_def wrap_output_def prim_wrap_for_grad_def log_def tree_unflatten_def Let_def

theorem wrap_outputs_maintaining_identity_leaves_witness:
  "\<not> is_Tensor ex_n0 \<and> is_Tensor ex_x0 \<and> is_Tensor ex_y0
   \<and> oid ex_x0 \<noteq> oid ex_y0 \<and> ex_y0 = RawTensor (oid ex_y0) [1, 2] \<and> ex_x0 = RawTensor (oid ex_x0) [1, 2]
   \<and> wrap_outputs_maintaining_identity
        (Node PyTuple [Leaf ex_n0, Leaf ex_x0, Leaf ex_y0])
        (Node PyTuple [Leaf ex_x0]) (Node PyTuple [Leaf ex_x1]) 2 (ex_state [])
      = (Inr (Node PyTuple [Leaf ex_n0, Leaf ex_x1, Leaf (TensorWrapper 10 ex_y0 2)]),
         (ex_state [])\<lparr>next_id := 11, trace := [EWrapGrad 2]\<rparr>)"
proof -
  let ?out = "Node PyTuple [Leaf ex_n0, Leaf ex_x0, Leaf ex_y0]"
  let ?u = "Node PyTuple [Leaf ex_x0]" and ?o = "Node PyTuple [Leaf ex_x1]"
  obtain result s' where r:
    "wrap_outputs_maintaining_identity ?out ?u ?o 2 (ex_state []) = (Inr result, s')"
    "tree_structure result = tree_structure ?out"
    "length (tree_leaves result) = length (tree_leaves ?out)"
    and leaf: "\<forall>i<length (tree_leaves ?out).
           (\<not> is_Tensor (tree_leaves ?out ! i) \<longrightarrow> tree_leaves result ! i = tree_leaves ?out ! i)
         \<and> (is_Tensor (tree_leaves ?out ! i) \<longrightarrow>
              ((\<exists>j. j < length (tree_leaves ?u) \<and> j < length (tree_leaves ?o)
                    \<and> oid (tree_leaves ?u ! j) = oid (tree_leaves ?out ! i)) \<longrightarrow>
               (\<exists>j. j < length (tree_leaves ?u) \<and> j < length (tree_leaves ?o)
                    \<and> oid (tree_leaves ?u ! j) = oid (tree_leaves ?out ! i)
                    \<and> tree_leaves result ! i = tree_leaves ?o ! j))
            \<and> ((\<forall>j. j < length (tree_leaves ?u) \<and> j < length (tree_leaves ?o)
                    \<longrightarrow> oid (tree_leaves ?u ! j) \<noteq> oid (tree_leaves ?out ! i)) \<longrightarrow>
               (\<exists>k. next_id (ex_state []) \<le> k \<and> k < next_id s'
                    \<and> tree_leaves result ! i = TensorWrapper k (tree_leaves ?out ! i) 2)))"
    using wrap_outputs_maintaining_identity_leaves[of ?out ?u ?o 2 "ex_state []"] by blast
  have l0: "tree_leaves result ! 0 = ex_n0"
    using leaf[rule_format, of 0] by (simp add: ex_defs)
  have l1: "tree_leaves result ! 1 = ex_x1"
    using leaf[rule_format, of 1] by (simp add: ex_defs)
  have "\<exists>k. 10 \<le> k \<and> tree_leaves result ! 2 = TensorWrapper k ex_y0 2"
    using leaf[rule_format, of 2] by (auto simp: ex_defs)
  then obtain k where l2: "tree_leaves result ! 2 = TensorWrapper k ex_y0 2" by blast
  note l0 l1 l2
  moreover have "wrap_outputs_maintaining_identity ?out ?u ?o 2 (ex_state [])
      = (Inr (Node PyTuple [Leaf ex_n0, Leaf ex_x1, Leaf (TensorWrapper 10 ex_y0 2)]),
         (ex_state [])\<lparr>next_id := 11, trace := [EWrapGrad 2]\<rparr>)"
    by (simp add: run_defs ex_defs)
  ultimately show ?thesis using r(1) by (simp add: ex_defs)
qed

section \<open>Effect of unwrapping\<close>

lemma tensor_count_simps [simp]:
  "tensor_count [] = 0"
  "tensor_count (x # xs) = (if is_Tensor x then Suc (tensor_count xs) else tensor_count xs)"
  by (simp_all add: tensor_count_def)

lemma prim_unwrap_for_grad_eq:
  "prim_unwrap_for_grad x lvl s = (Inr (grad_value lvl x), log (EUnwrapGrad lvl) s)"
  by (cases x) (simp_all add: prim_unwrap_for_grad_def)

lemma prim_unwrap_batched_eq:
  "prim_unwrap_batched x lvl s = (Inr (batch_value lvl x, batch_dim lvl x), log (EUnwrapBatched lvl) s)"
  by (cases x) (simp_all add: prim_unwrap_batched_def)

lemma grad_value_NonTensor: "\<not> is_Tensor x \<Longrightarrow> grad_value lvl x = x"
  by (cases x) simp_all

lemma batch_value_NonTensor: "\<not> is_Tensor x \<Longrightarrow> batch_value lvl x = x \<and> batch_dim lvl x = None"
  by (cases x) simp_all

lemma mapM_unwrap_for_grad:
  "mapM (\<lambda>x. if is_Tensor x then prim_unwrap_for_grad x lvl else ret x) xs s =
     (Inr (map (grad_value lvl) xs),
      s\<lparr>trace := trace s @ replicate (tensor_count xs) (EUnwrapGrad lvl)\<rparr>)"
proof (induction xs arbitrary: s)
  case Nil
  then show ?case by (simp add: ret_def)
next
  case (Cons x xs)
  show ?case
  proof (cases "is_Tensor x")
    case True
    then show ?thesis
      by (simp add: bnd_def prim_unwrap_for_grad_eq Cons.IH ret_def log_def)
  next
    case False
    then show ?thesis
      by (simp add: bnd_def Cons.IH ret_def grad_value_NonTensor)
  qed
qed

lemma mapM_unwrap_batched:
  "mapM (\<lambda>arg. if is_Tensor arg then prim_unwrap_batched arg lvl else ret (arg, None)) xs s =
     (Inr (map (\<lambda>x. (batch_value lvl x, batch_dim lvl x)) xs),
      s\<lparr>trace := trace s @ replicate (tensor_count xs) (EUnwrapBatched lvl)\<rparr>)"
proof (induction xs arbitrary: s)
  case Nil
  then show ?case by (simp add: ret_def)
next
  case (Cons x xs)
  show ?case
  proof (cases "is_Tensor x")
    case True
    then show ?thesis
      by (simp add: bnd_def prim_unwrap_batched_eq Cons.IH ret_def log_def)
  next
    case False
    then show ?thesis
      by (simp add: bnd_def Cons.IH ret_def batch_value_NonTensor)
  qed
qed

lemma tree_map_only_Tensor_unwrap:
  "tree_map_only_Tensor (\<lambda>x. prim_unwrap_for_grad x lvl) t s =
     (Inr (map_pytree (grad_value lvl) t),
      s\<lparr>trace := trace s @ replicate (tensor_count (tree_leaves t)) (EUnwrapGrad lvl)\<rparr>)"
  by (simp add: tree_map_only_Tensor_def tree_flatten_def bnd_def mapM_unwrap_for_grad
        tree_unflatten_map ret_def)

lemma map_pytree_no_leaves: "tree_leaves t = [] \<Longrightarrow> map_pytree f t = t"
  by (rule tree_eqI) simp_all

lemma unwrap_batched_eq:
  "unwrap_batched t lvl s =
     (Inr (map_pytree (batch_value lvl) t,
           if tree_leaves t = [] then Node PyTuple [] else map_pytree (batch_dim lvl) t),
      s\<lparr>trace := trace s @ replicate (tensor_count (tree_leaves t)) (EUnwrapBatched lvl)\<rparr>)"
proof (cases "tree_leaves t = []")
  case True
  then show ?thesis
    by (simp add: unwrap_batched_def tree_flatten_def ret_def map_pytree_no_leaves)
next
  case False
  show ?thesis using False
    by (simp add: unwrap_batched_def tree_flatten_def bnd_def mapM_unwrap_batched comp_def
          tree_unflatten_map ret_def)
qed

lemma in_dims_all_None:
  "tree_all (\<lambda>dim. dim = None)
     (if tree_leaves t = [] then Node PyTuple [] else map_pytree (batch_dim lvl) t)
   \<longleftrightarrow> (\<forall>x \<in> set (tree_leaves t). batch_dim lvl x = None)"
  by (simp add: tree_all_def list_all_iff)

section \<open>Redispatch happens on a shorter stack\<close>

text \<open>
  A rule calls the entry point only under \<open>lower\<close>, on a state whose interpreter stack
  is shorter by one.
\<close>

lemma Generated_forward_cong_at:
  assumes "\<And>g xs t. length (dynamic_layer_stack t) < length (dynamic_layer_stack s) \<Longrightarrow>
             e g xs t = e' g xs t"
  shows "Generated_forward e i f ops s = Generated_forward e' i f ops s"
proof (cases "dynamic_layer_stack s")
  case Nil
  then show ?thesis
    by (simp add: Generated_forward_def bnd_def tree_map_only_Tensor_unwrap set_grad_enabled_def
          set_fwd_grad_enabled_def lower_def with_ctx_def pop_dynamic_layer_stack_def)
next
  case (Cons cur rest)
  then show ?thesis
    by (simp add: Generated_forward_def bnd_def tree_map_only_Tensor_unwrap set_grad_enabled_def
          set_fwd_grad_enabled_def lower_def with_ctx_def pop_dynamic_layer_stack_def log_def assms)
qed

lemma custom_function_call_grad_cong_at:
  assumes "\<And>g xs t. length (dynamic_layer_stack t) < length (dynamic_layer_stack s) \<Longrightarrow>
             e g xs t = e' g xs t"
  shows "custom_function_call_grad e i f ops s = custom_function_call_grad e' i f ops s"
proof -
  have "Generated_forward e i f ops t = Generated_forward e' i f ops t"
    if "dynamic_layer_stack t = dynamic_layer_stack s" for t
    by (rule Generated_forward_cong_at) (simp add: that assms)
  then show ?thesis
    by (simp add: custom_function_call_grad_def Generated_def enable_autograd_function_def
          SingleLevelFunction_apply_def with_ctx_def bnd_def new_ctx_def set_grad_enabled_def
          set_fwd_grad_enabled_def)
qed

lemma custom_function_call_vmap_cong_at:
  assumes "\<And>g xs t. length (dynamic_layer_stack t) < length (dynamic_layer_stack s) \<Longrightarrow>
             e g xs t = e' g xs t"
  shows "custom_function_call_vmap e i f ops s = custom_function_call_vmap e' i f ops s"
proof (cases "dynamic_layer_stack s")
  case Nil
  then show ?thesis
    by (simp add: custom_function_call_vmap_def bnd_def unwrap_batched_eq lower_def with_ctx_def
          pop_dynamic_layer_stack_def Let_def split: option.splits)
next
  case (Cons cur rest)
  then show ?thesis
    by (simp add: custom_function_call_vmap_def bnd_def unwrap_batched_eq lower_def with_ctx_def
          pop_dynamic_layer_stack_def Let_def log_def assms split: option.splits)
qed

lemma PyOperator_call_cong [fundef_cong]:
  assumes "f = f'" and "ops = ops'" and "s = s'"
    and "\<And>g xs t. length (dynamic_layer_stack t) < length (dynamic_layer_stack s') \<Longrightarrow>
           e g xs t = e' g xs t"
  shows "PyOperator_call e f ops s = PyOperator_call e' f' ops' s'"
  using assms(1-3) custom_function_call_grad_cong_at[of s' e e', OF assms(4)]
    custom_function_call_vmap_cong_at[of s' e e', OF assms(4)]
  by (simp add: PyOperator_call_def split: list.splits TransformType.splits)

section \<open>The entry point\<close>

text \<open>
  \<^verbatim>\<open>CustomFunctionPyOperator.__call__\<close>, with the descriptor \<^verbatim>\<open>args[0]\<close> and the
  operands \<^verbatim>\<open>args[1:]\<close> as two arguments; keyword arguments are left out. The recursion
  ends because every redispatch is on a shorter interpreter stack.
\<close>

function custom_function_call :: "Function \<Rightarrow> args \<Rightarrow> pyobj pytree M" where
  "custom_function_call autograd_function operands s =
     (if are_functorch_transforms_active s
      then PyOperator_call custom_function_call autograd_function operands s
      else apply_entry autograd_function operands s)"
  by pat_completeness auto
termination
  by (relation "measure (\<lambda>(f, ops, s). length (dynamic_layer_stack s))") auto

declare custom_function_call.simps [simp del]

section \<open>Direct call, unsupported transform, missing capability\<close>

text \<open>
  C2: with no transform active, the entry point is the descriptor's apply entry on the
  same operands and state: same result, same final state.
\<close>

theorem custom_function_call_no_transform:
  "\<not> are_functorch_transforms_active s \<Longrightarrow>
   custom_function_call f A s = apply_entry f A s"
  by (simp add: custom_function_call.simps)

theorem custom_function_call_no_transform_witness:
  "\<not> are_functorch_transforms_active (ex_state [])
   \<and> custom_function_call ex_f [Leaf ex_x1] (ex_state [])
       = (Inr (Node PyTuple [Leaf ex_x1]), (ex_state [])\<lparr>trace := [EUser ''apply'']\<rparr>)"
  using custom_function_call_no_transform[of "ex_state []" ex_f "[Leaf ex_x1]"]
  by (simp add: are_functorch_transforms_active_def ex_state_def ex_f_def ex_apply_def log_def)

text \<open>
  C9: the Functionalize rule raises the not-implemented error for every descriptor and
  every operand tuple and leaves the whole state, the interpreter stack included, as it
  was; so does the entry point when the current interpreter is a Functionalize one.
\<close>

theorem custom_function_call_functionalize_raises:
  "custom_function_call_functionalize interpreter f operands s =
     (Inl (RuntimeError ''NYI: Functionalize rule for custom_function_call''), s)
   \<and> (\<forall>rest. dynamic_layer_stack s = interpreter # rest \<and> key interpreter = Functionalize \<longrightarrow>
        custom_function_call f operands s =
          (Inl (RuntimeError ''NYI: Functionalize rule for custom_function_call''), s))"
  by (simp add: custom_function_call_functionalize_def raise_def custom_function_call.simps
        are_functorch_transforms_active_def PyOperator_call_def)

theorem custom_function_call_functionalize_raises_witness:
  "dynamic_layer_stack (ex_state [ex_interp Functionalize 1]) = ex_interp Functionalize 1 # []
   \<and> key (ex_interp Functionalize 1) = Functionalize
   \<and> custom_function_call ex_f [Leaf ex_x1] (ex_state [ex_interp Functionalize 1]) =
       (Inl (RuntimeError ''NYI: Functionalize rule for custom_function_call''),
        ex_state [ex_interp Functionalize 1])"
  using custom_function_call_functionalize_raises
          [of "ex_interp Functionalize 1" ex_f "[Leaf ex_x1]" "ex_state [ex_interp Functionalize 1]"]
  by (simp add: ex_state_def ex_interp_def)

text \<open>
  C6: for a descriptor without a \<open>vmap\<close> capability the Vmap rule raises, whatever the
  operands are (batched at the level or not), an error whose message names the function
  and asks for a vmap staticmethod; the state is untouched, so nothing was unwrapped.
  The entry point does the same when the current interpreter is a Vmap one.
\<close>

theorem custom_function_call_vmap_missing:
  "vmap f = None \<Longrightarrow>
   custom_function_call_vmap entry interpreter f operands s =
     (Inl (RuntimeError (''You tried to vmap over '' @ name f
             @ '', but it does not have a vmap rule defined. Please add a vmap staticmethod to it.'')),
      s)
   \<and> (\<forall>rest. dynamic_layer_stack s = interpreter # rest \<and> key interpreter = Vmap \<longrightarrow>
        custom_function_call f operands s =
          (Inl (RuntimeError (''You tried to vmap over '' @ name f
             @ '', but it does not have a vmap rule defined. Please add a vmap staticmethod to it.'')),
           s))"
  by (simp add: custom_function_call_vmap_def raise_def custom_function_call.simps
        are_functorch_transforms_active_def PyOperator_call_def)

theorem custom_function_call_vmap_missing_witness:
  "vmap (ex_f\<lparr>vmap := None\<rparr>) = None
   \<and> dynamic_layer_stack (ex_state [ex_interp Vmap 1]) = ex_interp Vmap 1 # []
   \<and> key (ex_interp Vmap 1) = Vmap
   \<and> custom_function_call (ex_f\<lparr>vmap := None\<rparr>) [Leaf ex_n0] (ex_state [ex_interp Vmap 1]) =
       (Inl (RuntimeError
          ''You tried to vmap over MyFn, but it does not have a vmap rule defined. Please add a vmap staticmethod to it.''),
        ex_state [ex_interp Vmap 1])"
  using custom_function_call_vmap_missing
          [of "ex_f\<lparr>vmap := None\<rparr>" custom_function_call "ex_interp Vmap 1" "[Leaf ex_n0]"
              "ex_state [ex_interp Vmap 1]"]
  by (simp add: ex_state_def ex_interp_def ex_f_def)

section \<open>The Vmap fast path\<close>

text \<open>
  C3: when every batch-dimension marker that \<open>unwrap_batched\<close> returns for the operands
  is none, the Vmap rule is the redispatch to the entry point under \<open>lower\<close>, on the
  original operands, with that result returned as it is. Unwrapping made no object and
  left the stack alone. With one interpreter on the stack the whole call is the
  descriptor's apply entry run on the emptied stack: the \<open>vmap\<close> capability plays no part.
\<close>

theorem custom_function_call_vmap_fast_path:
  assumes "vmap f = Some g"
    and "unwrap_batched (Node PyTuple operands) (level interpreter) s = (Inr (unwrapped_operands, in_dims), s1)"
    and "tree_all (\<lambda>dim. dim = None) in_dims"
  shows "custom_function_call_vmap entry interpreter f operands s
           = lower interpreter (entry f operands) s1
         \<and> dynamic_layer_stack s1 = dynamic_layer_stack s
         \<and> next_id s1 = next_id s
         \<and> (\<forall>cur. dynamic_layer_stack s = [cur] \<longrightarrow>
               custom_function_call_vmap custom_function_call interpreter f operands s =
                 (case apply_entry f operands
                         (log (ELower (level cur)) (s1\<lparr>dynamic_layer_stack := []\<rparr>)) of
                    (r, s2) \<Rightarrow> (r, push_dynamic_layer_stack cur s2)))"
proof -
  have rule: "custom_function_call_vmap e interpreter f operands s = lower interpreter (e f operands) s1"
    for e
    using assms by (simp add: custom_function_call_vmap_def bnd_def Let_def)
  have s1: "s1 = s\<lparr>trace := trace s @ replicate (tensor_count (tree_leaves (Node PyTuple operands)))
                                     (EUnwrapBatched (level interpreter))\<rparr>"
    using assms(2) by (simp add: unwrap_batched_eq)
  have "custom_function_call_vmap custom_function_call interpreter f operands s =
          (case apply_entry f operands (log (ELower (level cur)) (s1\<lparr>dynamic_layer_stack := []\<rparr>)) of
             (r, s2) \<Rightarrow> (r, push_dynamic_layer_stack cur s2))"
    if "dynamic_layer_stack s = [cur]" for cur
    using that
    by (simp add: rule lower_def with_ctx_def pop_dynamic_layer_stack_def s1
          custom_function_call.simps are_functorch_transforms_active_def log_def)
  then show ?thesis using rule s1 by simp
qed

theorem custom_function_call_vmap_fast_path_witness:
  "vmap ex_f = Some ex_vmap
   \<and> unwrap_batched (Node PyTuple [Leaf ex_n0, Leaf ex_x1]) (level (ex_interp Vmap 1))
        (ex_state [ex_interp Vmap 1])
       = (Inr (Node PyTuple [Leaf ex_n0, Leaf ex_x1], Node PyTuple [Leaf None, Leaf None]),
          (ex_state [ex_interp Vmap 1])\<lparr>trace := [EUnwrapBatched 1]\<rparr>)
   \<and> tree_all (\<lambda>dim. dim = None) (Node PyTuple [Leaf None, Leaf (None :: int option)])
   \<and> custom_function_call_vmap custom_function_call (ex_interp Vmap 1) ex_f [Leaf ex_n0, Leaf ex_x1]
        (ex_state [ex_interp Vmap 1])
       = (Inr (Node PyTuple [Leaf ex_n0, Leaf ex_x1]),
          (ex_state [ex_interp Vmap 1])
            \<lparr>trace := [EUnwrapBatched 1, ELower 1, EUser ''apply'', ERestore 1]\<rparr>)"
proof -
  have u: "unwrap_batched (Node PyTuple [Leaf ex_n0, Leaf ex_x1]) (level (ex_interp Vmap 1))
        (ex_state [ex_interp Vmap 1])
       = (Inr (Node PyTuple [Leaf ex_n0, Leaf ex_x1], Node PyTuple [Leaf None, Leaf None]),
          (ex_state [ex_interp Vmap 1])\<lparr>trace := [EUnwrapBatched 1]\<rparr>)"
    by (simp add: unwrap_batched_eq ex_defs ex_interp_def)
  have v: "vmap ex_f = Some ex_vmap" by (simp add: ex_f_def)
  have a: "tree_all (\<lambda>dim. dim = None) (Node PyTuple [Leaf None, Leaf (None :: int option)])"
    by (simp add: tree_all_def)
  show ?thesis
    using custom_function_call_vmap_fast_path[OF v u a, of custom_function_call] u v a
    by (simp add: ex_state_def ex_interp_def ex_f_def ex_apply_def log_def push_dynamic_layer_stack_def
          lower_def with_ctx_def pop_dynamic_layer_stack_def custom_function_call.simps
          are_functorch_transforms_active_def)
qed

section \<open>The single-level node of the Grad/Jvp rule\<close>

lemma Generated_forward_eq:
  assumes st: "dynamic_layer_stack s = cur # rest"
  shows "Generated_forward entry interpreter f operands s =
          (case entry f (map (map_pytree (grad_value (level interpreter))) operands)
                  (s\<lparr>grad_mode := True, fwd_grad_mode := True,
                     dynamic_layer_stack := rest,
                     trace := trace s @ replicate (tensor_count (concat (map tree_leaves operands)))
                                          (EUnwrapGrad (level interpreter))
                                 @ [ELower (level cur)]\<rparr>) of
             (r, s2) \<Rightarrow>
               (case r of
                  Inl e \<Rightarrow>
                    (Inl e, (push_dynamic_layer_stack cur s2)
                               \<lparr>fwd_grad_mode := fwd_grad_mode s, grad_mode := grad_mode s\<rparr>)
                | Inr output \<Rightarrow>
                    wrap_outputs_maintaining_identity output
                      (Node PyTuple (map (map_pytree (grad_value (level interpreter))) operands))
                      (Node PyTuple operands) (level interpreter)
                      ((push_dynamic_layer_stack cur s2)
                         \<lparr>fwd_grad_mode := fwd_grad_mode s, grad_mode := grad_mode s\<rparr>)))"
proof -
  obtain r s2 where e:
    "entry f (map (map_pytree (grad_value (level interpreter))) operands)
                (s\<lparr>grad_mode := True, fwd_grad_mode := True,
                   dynamic_layer_stack := rest,
                   trace := trace s @ replicate (tensor_count (concat (map tree_leaves operands)))
                                        (EUnwrapGrad (level interpreter))
                               @ [ELower (level cur)]\<rparr>) = (r, s2)"
    by (rule prod.exhaust)
  show ?thesis
    using st e
    by (cases r)
       (simp_all add: Generated_forward_def bnd_def tree_map_only_Tensor_unwrap
          set_grad_enabled_def set_fwd_grad_enabled_def lower_def with_ctx_def
          pop_dynamic_layer_stack_def log_def)
qed



section \<open>Scoped state is put back\<close>












lemma tree_unflatten_keeps_state: "snd (tree_unflatten vs spec s) = s"
  by (simp add: tree_unflatten_def ret_def raise_def split: option.splits prod.splits list.splits)


lemma preserve_object_identity_keeps_state:
  "snd (preserve_object_identity outputs inputs uo ui s) = s"
  by (simp add: preserve_object_identity_def tree_flatten_def Let_def tree_unflatten_keeps_state)



lemmas rule_defs = custom_function_call.simps are_functorch_transforms_active_def PyOperator_call_def
  custom_function_call_grad_def Generated_def Generated_forward_def SingleLevelFunction_apply_def
  new_ctx_def enable_autograd_function_def set_grad_enabled_def set_fwd_grad_enabled_def lower_def
  with_ctx_def pop_dynamic_layer_stack_def push_dynamic_layer_stack_def
  custom_function_call_vmap_def wrap_batched_def create_batched_inputs_def prim_add_batch_dim_def
  preserve_object_identity_def preserve_output_def tree_all_def
  tree_map_only_Tensor_unwrap unwrap_batched_eq




section \<open>Order of unwrapping and rewrapping under nesting\<close>

lemma logs_as_user_apply:
  "logs_as_user f \<Longrightarrow> \<exists>us. trace (snd (apply_entry f operands s)) = trace s @ map EUser us"
  by (simp add: logs_as_user_def only_user_events_def)

lemma logs_as_user_setup_context:
  "logs_as_user f \<Longrightarrow>
   \<exists>us. trace (snd (setup_context f c outputs operands s)) = trace s @ map EUser us"
  by (simp add: logs_as_user_def only_user_events_def)

lemma logs_as_user_vmap:
  "logs_as_user f \<Longrightarrow> vmap f = Some g \<Longrightarrow>
   \<exists>us. trace (snd (g info in_dims operands s)) = trace s @ map EUser us"
  by (simp add: logs_as_user_def only_user_events_def)

lemma mapM_add_batch_dim_trace:
  "\<exists>k. trace (snd (mapM (\<lambda>(in_dim, arg). case in_dim of None \<Rightarrow> ret arg
                                            | Some d \<Rightarrow> prim_add_batch_dim arg d lvl) ps s))
        = trace s @ replicate k (EAddBatchDim lvl)"
proof (induction ps arbitrary: s)
  case Nil
  then show ?case by (simp add: ret_def)
next
  case (Cons p ps)
  let ?F = "\<lambda>(in_dim, arg). case in_dim of None \<Rightarrow> ret arg | Some d \<Rightarrow> prim_add_batch_dim arg d lvl"
  obtain dim arg where p: "p = (dim, arg)" by (cases p)
  show ?case
  proof (cases dim)
    case None
    obtain k where "trace (snd (mapM ?F ps s)) = trace s @ replicate k (EAddBatchDim lvl)"
      using Cons.IH by blast
    then show ?thesis using p None
      by (intro exI[of _ k]) (auto simp: bnd_def ret_def split: prod.splits sum.splits)
  next
    case (Some d)
    show ?thesis
    proof (cases "is_Tensor arg")
      case False
      then show ?thesis using p Some
        by (intro exI[of _ 0]) (simp add: bnd_def prim_add_batch_dim_def)
    next
      case True
      let ?s1 = "log (EAddBatchDim lvl) (s\<lparr>next_id := Suc (next_id s)\<rparr>)"
      obtain k where "trace (snd (mapM ?F ps ?s1)) = trace ?s1 @ replicate k (EAddBatchDim lvl)"
        using Cons.IH by blast
      then show ?thesis using p Some True
        by (intro exI[of _ "Suc k"])
           (auto simp: bnd_def ret_def prim_add_batch_dim_def log_def split: prod.splits sum.splits)
    qed
  qed
qed

lemma wrap_batched_trace:
  "\<exists>k. trace (snd (wrap_batched args bdims lvl s)) = trace s @ replicate k (EAddBatchDim lvl)"
proof (cases "broadcast_to_and_flatten bdims (tree_structure args)")
  case None
  then show ?thesis
    by (intro exI[of _ 0]) (simp add: wrap_batched_def tree_flatten_def raise_def)
next
  case (Some flat_bdims)
  let ?F = "\<lambda>(in_dim, arg). case in_dim of None \<Rightarrow> ret arg | Some d \<Rightarrow> prim_add_batch_dim arg d lvl"
  obtain k where k: "trace (snd (mapM ?F (zip flat_bdims (tree_leaves args)) s))
                       = trace s @ replicate k (EAddBatchDim lvl)"
    using mapM_add_batch_dim_trace by blast
  obtain r s1 where m: "mapM ?F (zip flat_bdims (tree_leaves args)) s = (r, s1)"
    by (rule prod.exhaust)
  have "snd (create_batched_inputs flat_bdims (tree_leaves args) lvl (tree_structure args) s) = s1"
    using m by (cases r) (simp_all add: create_batched_inputs_def bnd_def tree_unflatten_keeps_state)
  then show ?thesis using Some k m
    by (intro exI[of _ k]) (simp add: wrap_batched_def tree_flatten_def)
qed

lemma lower_trace:
  assumes "dynamic_layer_stack s = cur # rest"
  shows "trace (snd (lower i body s)) =
           trace (snd (body (s\<lparr>dynamic_layer_stack := rest, trace := trace s @ [ELower (level cur)]\<rparr>)))
             @ [ERestore (level cur)]"
  using assms
  by (auto simp: lower_def with_ctx_def pop_dynamic_layer_stack_def push_dynamic_layer_stack_def
        log_def split: prod.splits)

lemma lower_to_empty:
  assumes "dynamic_layer_stack s = [cur]"
  shows "lower i (custom_function_call f ops) s = lower i (apply_entry f ops) s"
  using assms
  by (simp add: lower_def with_ctx_def pop_dynamic_layer_stack_def log_def
        custom_function_call.simps are_functorch_transforms_active_def)

lemma custom_function_call_vmap_eq:
  assumes v: "vmap f = Some g"
  shows "custom_function_call_vmap entry i f ops s =
     (if list_all (\<lambda>x. batch_dim (level i) x = None) (concat (map tree_leaves ops))
      then lower i (entry f ops)
             (s\<lparr>trace := trace s @ replicate (tensor_count (concat (map tree_leaves ops)))
                                      (EUnwrapBatched (level i))\<rparr>)
      else bnd (lower i (g (VmapInfo (batch_size i))
                           (Node PyTuple (map (map_pytree (batch_dim (level i))) ops))
                           (map (map_pytree (batch_value (level i))) ops)))
             (\<lambda>(unwrapped_output, out_dims).
                bnd (wrap_batched unwrapped_output out_dims (level i))
                  (\<lambda>output. preserve_object_identity output (Node PyTuple ops) unwrapped_output
                              (Node PyTuple (map (map_pytree (batch_value (level i))) ops))))
             (s\<lparr>trace := trace s @ replicate (tensor_count (concat (map tree_leaves ops)))
                                      (EUnwrapBatched (level i))\<rparr>))"
proof -
  define s1 where "s1 = s\<lparr>trace := trace s @ replicate (tensor_count (concat (map tree_leaves ops)))
                                      (EUnwrapBatched (level i))\<rparr>"
  define u where "u = map_pytree (batch_value (level i)) (Node PyTuple ops)"
  define dims where "dims = (if tree_leaves (Node PyTuple ops) = [] then Node PyTuple []
               else map_pytree (batch_dim (level i)) (Node PyTuple ops))"
  have ub: "unwrap_batched (Node PyTuple ops) (level i) s = (Inr (u, dims), s1)"
    unfolding u_def dims_def s1_def using unwrap_batched_eq[of "Node PyTuple ops" "level i" s] by simp
  have all: "tree_all (\<lambda>dim. dim = None) dims
               \<longleftrightarrow> list_all (\<lambda>x. batch_dim (level i) x = None) (concat (map tree_leaves ops))"
    unfolding dims_def using in_dims_all_None[of "Node PyTuple ops" "level i"]
    by (simp add: list_all_iff)
  have rule: "custom_function_call_vmap entry i f ops s =
     (if tree_all (\<lambda>dim. dim = None) dims then lower i (entry f ops) s1
      else bnd (lower i (g (VmapInfo (batch_size i)) dims (star u)))
             (\<lambda>(unwrapped_output, out_dims).
                bnd (wrap_batched unwrapped_output out_dims (level i))
                  (\<lambda>output. preserve_object_identity output (Node PyTuple ops) unwrapped_output u))
             s1)"
    using v
    by (simp add: custom_function_call_vmap_def Let_def
          bnd_Inr[of "unwrap_batched (Node PyTuple ops) (level i)" s, OF ub])
  show ?thesis
  proof (cases "list_all (\<lambda>x. batch_dim (level i) x = None) (concat (map tree_leaves ops))")
    case True
    then show ?thesis unfolding rule all by (simp add: s1_def)
  next
    case False
    have ne: "concat (map tree_leaves ops) \<noteq> []"
    proof
      assume e: "concat (map tree_leaves ops) = []"
      have "list_all (\<lambda>x. batch_dim (level i) x = None) (concat (map tree_leaves ops))"
        unfolding e by simp
      with False show False by blast
    qed
    have "tree_leaves (Node PyTuple ops) \<noteq> []" using ne by simp
    then have d: "dims = Node PyTuple (map (map_pytree (batch_dim (level i))) ops)"
      unfolding dims_def by (simp only: if_False pytree.map)
    have su: "star u = map (map_pytree (batch_value (level i))) ops"
      and uu: "u = Node PyTuple (map (map_pytree (batch_value (level i))) ops)"
      by (simp_all add: u_def)
    show ?thesis unfolding rule unfolding all unfolding d su unfolding uu s1_def using False
      by (simp only: if_False)
  qed
qed

lemma custom_function_call_vmap_trace_Some:
  assumes st: "dynamic_layer_stack s = [i1]" and user: "logs_as_user f" and v: "vmap f = Some g"
  shows "\<exists>us k1.
           trace (snd (custom_function_call_vmap custom_function_call i f ops s)) =
             trace s @ replicate (tensor_count (concat (map tree_leaves ops))) (EUnwrapBatched (level i))
               @ [ELower (level i1)] @ map EUser us @ [ERestore (level i1)]
               @ replicate k1 (EAddBatchDim (level i))"
proof -
  define n1 where "n1 = tensor_count (concat (map tree_leaves ops))"
  define s1 where "s1 = s\<lparr>trace := trace s @ replicate n1 (EUnwrapBatched (level i))\<rparr>"
  define s2 where "s2 = s1\<lparr>dynamic_layer_stack := [], trace := trace s1 @ [ELower (level i1)]\<rparr>"
  define u where "u = Node PyTuple (map (map_pytree (batch_value (level i))) ops)"
  have st1: "dynamic_layer_stack s1 = i1 # []" using st by (simp add: s1_def)
  have low: "trace (snd (lower i body s1)) = trace (snd (body s2)) @ [ERestore (level i1)]"
    for body :: "'a M"
    using lower_trace[OF st1, of i body] by (simp add: s2_def)
  have tr2: "trace s2 = trace s @ replicate n1 (EUnwrapBatched (level i)) @ [ELower (level i1)]"
    by (simp add: s2_def s1_def)
  show ?thesis
  proof (cases "list_all (\<lambda>x. batch_dim (level i) x = None) (concat (map tree_leaves ops))")
    case True
    have rule: "custom_function_call_vmap custom_function_call i f ops s
                  = lower i (apply_entry f ops) s1"
      unfolding custom_function_call_vmap_eq[OF v] s1_def n1_def using True st
      by (simp add: lower_to_empty[of _ i1])
    obtain us where "trace (snd (apply_entry f ops s2)) = trace s2 @ map EUser us"
      using logs_as_user_apply[OF user] by blast
    then have "trace (snd (lower i (apply_entry f ops) s1))
        = trace s @ replicate n1 (EUnwrapBatched (level i))
            @ [ELower (level i1)] @ map EUser us @ [ERestore (level i1)]
            @ replicate 0 (EAddBatchDim (level i))"
      by (simp add: low tr2)
    then show ?thesis unfolding rule n1_def by blast
  next
    case False
    define call where "call = g (VmapInfo (batch_size i))
                           (Node PyTuple (map (map_pytree (batch_dim (level i))) ops))
                           (map (map_pytree (batch_value (level i))) ops)"
    have rule: "custom_function_call_vmap custom_function_call i f ops s
                  = bnd (lower i call)
                      (\<lambda>(unwrapped_output, out_dims).
                         bnd (wrap_batched unwrapped_output out_dims (level i))
                           (\<lambda>output. preserve_object_identity output (Node PyTuple ops)
                                       unwrapped_output u)) s1"
      unfolding custom_function_call_vmap_eq[OF v] s1_def n1_def call_def u_def using False
      by (simp only: if_False)
    obtain us where us: "trace (snd (call s2)) = trace s2 @ map EUser us"
      unfolding call_def using logs_as_user_vmap[OF user v] by blast
    obtain r s3 where lw: "lower i call s1 = (r, s3)"
      by (rule prod.exhaust)
    have tr3: "trace s3 = trace s @ replicate n1 (EUnwrapBatched (level i))
                 @ [ELower (level i1)] @ map EUser us @ [ERestore (level i1)]"
      using low[of call] us lw by (simp add: tr2)
    show ?thesis
    proof (cases r)
      case (Inl e)
      have "custom_function_call_vmap custom_function_call i f ops s = (Inl e, s3)"
        unfolding rule using lw Inl by (simp add: bnd_def)
      then have "trace (snd (custom_function_call_vmap custom_function_call i f ops s))
        = trace s @ replicate n1 (EUnwrapBatched (level i))
            @ [ELower (level i1)] @ map EUser us @ [ERestore (level i1)]
            @ replicate 0 (EAddBatchDim (level i))"
        using tr3 by simp
      then show ?thesis unfolding n1_def by blast
    next
      case (Inr x)
      obtain uo od where x: "x = (uo, od)" by (cases x)
      obtain k where k: "trace (snd (wrap_batched uo od (level i) s3))
                           = trace s3 @ replicate k (EAddBatchDim (level i))"
        using wrap_batched_trace by blast
      obtain r4 s4 where wb: "wrap_batched uo od (level i) s3 = (r4, s4)"
        by (rule prod.exhaust)
      have "snd (bnd (wrap_batched uo od (level i))
                   (\<lambda>output. preserve_object_identity output (Node PyTuple ops) uo u) s3) = s4"
        using wb by (cases r4) (simp_all add: bnd_def preserve_object_identity_keeps_state)
      then have "snd (custom_function_call_vmap custom_function_call i f ops s) = s4"
        unfolding rule using lw Inr x by (simp add: bnd_def)
      then have "trace (snd (custom_function_call_vmap custom_function_call i f ops s))
        = trace s @ replicate n1 (EUnwrapBatched (level i))
            @ [ELower (level i1)] @ map EUser us @ [ERestore (level i1)]
            @ replicate k (EAddBatchDim (level i))"
        using tr3 k wb by simp
      then show ?thesis unfolding n1_def by blast
    qed
  qed
qed

lemma custom_function_call_grad_eq:
  assumes st: "dynamic_layer_stack s = cur # rest"
  shows "custom_function_call_grad entry interpreter f operands s =
     (case entry f (map (map_pytree (grad_value (level interpreter))) operands)
             (s\<lparr>autograd_function_allowed := True, grad_mode := True, fwd_grad_mode := True,
                next_id := Suc (next_id s), dynamic_layer_stack := rest,
                trace := trace s @ replicate (tensor_count (concat (map tree_leaves operands)))
                                     (EUnwrapGrad (level interpreter))
                          @ [ELower (level cur)]\<rparr>) of
        (r, s2) \<Rightarrow>
          (case r of
             Inl e \<Rightarrow>
               (Inl e, (push_dynamic_layer_stack cur s2)
                         \<lparr>fwd_grad_mode := fwd_grad_mode s, grad_mode := grad_mode s,
                          autograd_function_allowed := autograd_function_allowed s\<rparr>)
           | Inr out \<Rightarrow>
               (case wrap_outputs_maintaining_identity out
                       (Node PyTuple (map (map_pytree (grad_value (level interpreter))) operands))
                       (Node PyTuple operands) (level interpreter)
                       ((push_dynamic_layer_stack cur s2)
                          \<lparr>fwd_grad_mode := False, grad_mode := False\<rparr>) of
                  (r3, s3) \<Rightarrow>
                    (case r3 of
                       Inl e \<Rightarrow>
                         (Inl e, s3\<lparr>fwd_grad_mode := fwd_grad_mode s, grad_mode := grad_mode s,
                                    autograd_function_allowed := autograd_function_allowed s\<rparr>)
                     | Inr result \<Rightarrow>
                         (case setup_context f (next_id s) result operands s3 of
                            (r4, s4) \<Rightarrow>
                              (case r4 of
                                 Inl e \<Rightarrow>
                                   (Inl e, s4\<lparr>fwd_grad_mode := fwd_grad_mode s,
                                              grad_mode := grad_mode s,
                                              autograd_function_allowed := autograd_function_allowed s\<rparr>)
                               | Inr u \<Rightarrow>
                                   (Inr result, s4\<lparr>fwd_grad_mode := fwd_grad_mode s,
                                              grad_mode := grad_mode s,
                                              autograd_function_allowed := autograd_function_allowed s\<rparr>)))))))"
proof -
  define sD where "sD = s\<lparr>autograd_function_allowed := True, next_id := Suc (next_id s),
                          grad_mode := False, fwd_grad_mode := False\<rparr>"
  define U where "U = map (map_pytree (grad_value (level interpreter))) operands"
  define S1 where "S1 = s\<lparr>autograd_function_allowed := True, grad_mode := True, fwd_grad_mode := True,
                next_id := Suc (next_id s), dynamic_layer_stack := rest,
                trace := trace s @ replicate (tensor_count (concat (map tree_leaves operands)))
                                     (EUnwrapGrad (level interpreter))
                          @ [ELower (level cur)]\<rparr>"
  have stD: "dynamic_layer_stack sD = cur # rest" using st by (simp add: sD_def)
  obtain r s2 where call: "entry f U S1 = (r, s2)" by (rule prod.exhaust)
  have S1': "sD\<lparr>grad_mode := True, fwd_grad_mode := True, dynamic_layer_stack := rest,
                trace := trace sD @ replicate (tensor_count (concat (map tree_leaves operands)))
                                     (EUnwrapGrad (level interpreter))
                          @ [ELower (level cur)]\<rparr> = S1"
    by (simp add: sD_def S1_def)
  have fwd: "Generated_forward entry interpreter f operands sD =
          (case r of
             Inl e \<Rightarrow> (Inl e, (push_dynamic_layer_stack cur s2)
                               \<lparr>fwd_grad_mode := False, grad_mode := False\<rparr>)
           | Inr out \<Rightarrow>
               wrap_outputs_maintaining_identity out (Node PyTuple U) (Node PyTuple operands)
                 (level interpreter)
                 ((push_dynamic_layer_stack cur s2)\<lparr>fwd_grad_mode := False, grad_mode := False\<rparr>))"
    unfolding Generated_forward_eq[OF stD, of entry interpreter f operands] S1' U_def[symmetric] call
    by (cases r) (simp_all add: sD_def)
  have top: "custom_function_call_grad entry interpreter f operands s =
     (case Generated_forward entry interpreter f operands sD of
        (r3, s3) \<Rightarrow>
          (case r3 of
             Inl e \<Rightarrow> (Inl e, s3\<lparr>fwd_grad_mode := fwd_grad_mode s, grad_mode := grad_mode s,
                                    autograd_function_allowed := autograd_function_allowed s\<rparr>)
           | Inr result \<Rightarrow>
               (case setup_context f (next_id s) result operands s3 of
                  (r4, s4) \<Rightarrow>
                    (case r4 of
                       Inl e \<Rightarrow> (Inl e, s4\<lparr>fwd_grad_mode := fwd_grad_mode s,
                                              grad_mode := grad_mode s,
                                              autograd_function_allowed := autograd_function_allowed s\<rparr>)
                     | Inr u \<Rightarrow> (Inr result, s4\<lparr>fwd_grad_mode := fwd_grad_mode s,
                                              grad_mode := grad_mode s,
                                              autograd_function_allowed := autograd_function_allowed s\<rparr>)))))"
    by (simp add: custom_function_call_grad_def Generated_def enable_autograd_function_def
          SingleLevelFunction_apply_def new_ctx_def set_grad_enabled_def set_fwd_grad_enabled_def
          with_ctx_def bnd_def ret_def sD_def split: prod.splits sum.splits)
  show ?thesis
    unfolding top fwd U_def[symmetric] S1_def[symmetric] call
    by (cases r) (simp_all split: prod.splits sum.splits)
qed

text \<open>
  C7: on a stack with a Grad interpreter of level \<open>L2\<close> on top of a Vmap interpreter of
  level \<open>L1\<close>, one call to the entry point is: the Vmap rule, run on the operands
  unwrapped at \<open>L2\<close> in the state where only the Vmap interpreter is on the stack, whose
  result is then rewrapped at \<open>L2\<close> by \<open>wrap_outputs_maintaining_identity\<close> once the Grad
  interpreter is back; the Vmap rule there unwraps at \<open>L1\<close>, lowers past \<open>L1\<close> around the
  user's code and rewraps at \<open>L1\<close>. Without a \<open>vmap\<close> capability the call fails after the
  unwraps at \<open>L2\<close>, with no unwrap at \<open>L1\<close>. With one, and user code that leaves only marks
  of its own, the trace is, in this order: one unwrap at \<open>L2\<close> for each tensor leaf of the
  operands; the lowering past \<open>L2\<close>; one unwrap at \<open>L1\<close> for each tensor leaf of the
  operands unwrapped at \<open>L2\<close>; the lowering past \<open>L1\<close>, the user's marks and the return to
  \<open>L1\<close>; the rewraps at \<open>L1\<close>; the return to \<open>L2\<close>; one rewrap at \<open>L2\<close> for each tensor
  output that is not an unwrapped operand; the marks of \<open>setup_context\<close>.
\<close>

theorem custom_function_call_grad_over_vmap_order:
  assumes st: "dynamic_layer_stack s = [i2, i1]" and kg: "key i2 = Grad" and kv: "key i1 = Vmap"
    and U: "U = map (map_pytree (grad_value (level i2))) operands"
    and S1: "S1 = s\<lparr>autograd_function_allowed := True, grad_mode := True, fwd_grad_mode := True,
                    next_id := Suc (next_id s), dynamic_layer_stack := [i1],
                    trace := trace s @ replicate (tensor_count (concat (map tree_leaves operands)))
                                         (EUnwrapGrad (level i2))
                              @ [ELower (level i2)]\<rparr>"
    and S2: "S2 = S1\<lparr>trace := trace S1 @ replicate (tensor_count (concat (map tree_leaves U)))
                                           (EUnwrapBatched (level i1))\<rparr>"
    and fin: "fin = (\<lambda>t. t\<lparr>fwd_grad_mode := fwd_grad_mode s, grad_mode := grad_mode s,
                          autograd_function_allowed := autograd_function_allowed s\<rparr>)"
  shows
   "custom_function_call f operands s =
      (case custom_function_call_vmap custom_function_call i1 f U S1 of
         (r, s2) \<Rightarrow>
           (case r of
              Inl e \<Rightarrow> (Inl e, fin (push_dynamic_layer_stack i2 s2))
            | Inr out \<Rightarrow>
                (case wrap_outputs_maintaining_identity out (Node PyTuple U) (Node PyTuple operands)
                        (level i2)
                        ((push_dynamic_layer_stack i2 s2)\<lparr>fwd_grad_mode := False, grad_mode := False\<rparr>) of
                   (r3, s3) \<Rightarrow>
                     (case r3 of
                        Inl e \<Rightarrow> (Inl e, fin s3)
                      | Inr result \<Rightarrow>
                          (case setup_context f (next_id s) result operands s3 of
                             (r4, s4) \<Rightarrow>
                               (case r4 of
                                  Inl e \<Rightarrow> (Inl e, fin s4)
                                | Inr u \<Rightarrow> (Inr result, fin s4)))))))
    \<and> (vmap f = None \<longrightarrow>
         custom_function_call f operands s =
           (Inl (RuntimeError (''You tried to vmap over '' @ name f
                   @ '', but it does not have a vmap rule defined. Please add a vmap staticmethod to it.'')),
            s\<lparr>next_id := Suc (next_id s),
              trace := trace s @ replicate (tensor_count (concat (map tree_leaves operands)))
                                   (EUnwrapGrad (level i2))
                        @ [ELower (level i2), ERestore (level i2)]\<rparr>))
    \<and> (\<forall>g. vmap f = Some g \<longrightarrow>
         custom_function_call_vmap custom_function_call i1 f U S1 =
           (if list_all (\<lambda>x. batch_dim (level i1) x = None) (concat (map tree_leaves U))
            then lower i1 (apply_entry f U) S2
            else bnd (lower i1 (g (VmapInfo (batch_size i1))
                                  (Node PyTuple (map (map_pytree (batch_dim (level i1))) U))
                                  (map (map_pytree (batch_value (level i1))) U)))
                   (\<lambda>(unwrapped_output, out_dims).
                      bnd (wrap_batched unwrapped_output out_dims (level i1))
                        (\<lambda>output. preserve_object_identity output (Node PyTuple U) unwrapped_output
                                    (Node PyTuple (map (map_pytree (batch_value (level i1))) U))))
                   S2))
    \<and> (\<forall>g. vmap f = Some g \<and> logs_as_user f \<longrightarrow>
         (\<exists>us k1 k2 users.
            trace (snd (custom_function_call f operands s)) =
              trace s
              @ replicate (tensor_count (concat (map tree_leaves operands))) (EUnwrapGrad (level i2))
              @ [ELower (level i2)]
              @ replicate (tensor_count (concat (map tree_leaves U))) (EUnwrapBatched (level i1))
              @ [ELower (level i1)] @ map EUser us @ [ERestore (level i1)]
              @ replicate k1 (EAddBatchDim (level i1))
              @ [ERestore (level i2)]
              @ replicate k2 (EWrapGrad (level i2))
              @ map EUser users
            \<and> k2 = (case fst (custom_function_call_vmap custom_function_call i1 f U S1) of
                       Inl e \<Rightarrow> 0
                     | Inr out \<Rightarrow>
                         fresh_count (id_to_orig (concat (map tree_leaves U))
                                        (concat (map tree_leaves operands)))
                           (tree_leaves out))))"
proof -
  define n2 where "n2 = tensor_count (concat (map tree_leaves operands))"
  define n1 where "n1 = tensor_count (concat (map tree_leaves U))"
  have st1: "dynamic_layer_stack S1 = [i1]" by (simp add: S1)
  have tr1: "trace S1 = trace s @ replicate n2 (EUnwrapGrad (level i2)) @ [ELower (level i2)]"
    by (simp add: S1 n2_def)
  have entry: "custom_function_call f operands s
                 = custom_function_call_grad custom_function_call i2 f operands s"
    using st kg
    by (simp add: custom_function_call.simps[of f operands s] PyOperator_call_def
          are_functorch_transforms_active_def)
  have inner_call: "custom_function_call f U S1 = custom_function_call_vmap custom_function_call i1 f U S1"
    using st1 kv
    by (simp add: custom_function_call.simps[of f U S1] PyOperator_call_def
          are_functorch_transforms_active_def)
  have st': "dynamic_layer_stack s = i2 # [i1]" using st by simp
  have one: "custom_function_call f operands s =
      (case custom_function_call_vmap custom_function_call i1 f U S1 of
         (r, s2) \<Rightarrow>
           (case r of
              Inl e \<Rightarrow> (Inl e, fin (push_dynamic_layer_stack i2 s2))
            | Inr out \<Rightarrow>
                (case wrap_outputs_maintaining_identity out (Node PyTuple U) (Node PyTuple operands)
                        (level i2)
                        ((push_dynamic_layer_stack i2 s2)\<lparr>fwd_grad_mode := False, grad_mode := False\<rparr>) of
                   (r3, s3) \<Rightarrow>
                     (case r3 of
                        Inl e \<Rightarrow> (Inl e, fin s3)
                      | Inr result \<Rightarrow>
                          (case setup_context f (next_id s) result operands s3 of
                             (r4, s4) \<Rightarrow>
                               (case r4 of
                                  Inl e \<Rightarrow> (Inl e, fin s4)
                                | Inr u \<Rightarrow> (Inr result, fin s4)))))))"
    unfolding entry custom_function_call_grad_eq[OF st', of custom_function_call i2 f operands]
      U[symmetric] S1[symmetric] inner_call fin ..
  have two: "custom_function_call f operands s =
           (Inl (RuntimeError (''You tried to vmap over '' @ name f
                   @ '', but it does not have a vmap rule defined. Please add a vmap staticmethod to it.'')),
            s\<lparr>next_id := Suc (next_id s),
              trace := trace s @ replicate (tensor_count (concat (map tree_leaves operands)))
                                   (EUnwrapGrad (level i2))
                        @ [ELower (level i2), ERestore (level i2)]\<rparr>)"
    if "vmap f = None"
    unfolding one using that st
    by (simp add: custom_function_call_vmap_def raise_def S1 fin push_dynamic_layer_stack_def log_def)
  have three: "custom_function_call_vmap custom_function_call i1 f U S1 =
           (if list_all (\<lambda>x. batch_dim (level i1) x = None) (concat (map tree_leaves U))
            then lower i1 (apply_entry f U) S2
            else bnd (lower i1 (g (VmapInfo (batch_size i1))
                                  (Node PyTuple (map (map_pytree (batch_dim (level i1))) U))
                                  (map (map_pytree (batch_value (level i1))) U)))
                   (\<lambda>(unwrapped_output, out_dims).
                      bnd (wrap_batched unwrapped_output out_dims (level i1))
                        (\<lambda>output. preserve_object_identity output (Node PyTuple U) unwrapped_output
                                    (Node PyTuple (map (map_pytree (batch_value (level i1))) U))))
                   S2)"
    if v: "vmap f = Some g" for g
  proof -
    have "dynamic_layer_stack S2 = [i1]" by (simp add: S2 S1)
    then have "lower i1 (custom_function_call f U) S2 = lower i1 (apply_entry f U) S2"
      by (rule lower_to_empty)
    then show ?thesis
      unfolding custom_function_call_vmap_eq[OF v] S2[symmetric] by simp
  qed
  have four: "\<exists>us k1 k2 users.
            trace (snd (custom_function_call f operands s)) =
              trace s
              @ replicate n2 (EUnwrapGrad (level i2))
              @ [ELower (level i2)]
              @ replicate n1 (EUnwrapBatched (level i1))
              @ [ELower (level i1)] @ map EUser us @ [ERestore (level i1)]
              @ replicate k1 (EAddBatchDim (level i1))
              @ [ERestore (level i2)]
              @ replicate k2 (EWrapGrad (level i2))
              @ map EUser users
            \<and> k2 = (case fst (custom_function_call_vmap custom_function_call i1 f U S1) of
                       Inl e \<Rightarrow> 0
                     | Inr out \<Rightarrow>
                         fresh_count (id_to_orig (concat (map tree_leaves U))
                                        (concat (map tree_leaves operands)))
                           (tree_leaves out))"
    if v: "vmap f = Some g" and user: "logs_as_user f" for g
  proof -
    obtain r s2 where call: "custom_function_call_vmap custom_function_call i1 f U S1 = (r, s2)"
      by (rule prod.exhaust)
    obtain us k1 where tr2:
      "trace s2 = trace S1 @ replicate n1 (EUnwrapBatched (level i1))
                   @ [ELower (level i1)] @ map EUser us @ [ERestore (level i1)]
                   @ replicate k1 (EAddBatchDim (level i1))"
      using custom_function_call_vmap_trace_Some[OF st1 user v, of i1 U] call
      unfolding n1_def by auto
    define sE where "sE = (push_dynamic_layer_stack i2 s2)\<lparr>fwd_grad_mode := False, grad_mode := False\<rparr>"
    have trE: "trace sE = trace s2 @ [ERestore (level i2)]"
      by (simp add: sE_def push_dynamic_layer_stack_def log_def)
    have trP: "trace (fin (push_dynamic_layer_stack i2 s2)) = trace s2 @ [ERestore (level i2)]"
      by (simp add: fin push_dynamic_layer_stack_def log_def)
    have trfin: "trace (fin t) = trace t" for t by (simp add: fin)
    show ?thesis
    proof (cases r)
      case (Inl e)
      have "trace (snd (custom_function_call f operands s))
              = trace s2 @ [ERestore (level i2)] @ replicate 0 (EWrapGrad (level i2)) @ map EUser []"
        unfolding one call using Inl trP by simp
      then have "trace (snd (custom_function_call f operands s)) =
              trace s
              @ replicate n2 (EUnwrapGrad (level i2))
              @ [ELower (level i2)]
              @ replicate n1 (EUnwrapBatched (level i1))
              @ [ELower (level i1)] @ map EUser us @ [ERestore (level i1)]
              @ replicate k1 (EAddBatchDim (level i1))
              @ [ERestore (level i2)]
              @ replicate 0 (EWrapGrad (level i2))
              @ map EUser []"
        unfolding tr2 tr1 by simp
      then show ?thesis using Inl call by (intro exI[of _ us] exI[of _ k1] exI[of _ 0] exI[of _ "[]"]) simp
    next
      case (Inr out)
      define k2 where "k2 = fresh_count (id_to_orig (concat (map tree_leaves U))
                                        (concat (map tree_leaves operands))) (tree_leaves out)"
      obtain result where w:
        "wrap_outputs_maintaining_identity out (Node PyTuple U) (Node PyTuple operands)
           (level i2) sE =
         (Inr result, sE\<lparr>next_id := next_id sE + k2,
                         trace := trace sE @ replicate k2 (EWrapGrad (level i2))\<rparr>)"
        using wrap_outputs_maintaining_identity_effect[of out "Node PyTuple U" "Node PyTuple operands"
                "level i2" sE] unfolding k2_def by auto
      define sF where "sF = sE\<lparr>next_id := next_id sE + k2,
                         trace := trace sE @ replicate k2 (EWrapGrad (level i2))\<rparr>"
      obtain users where u:
        "trace (snd (setup_context f (next_id s) result operands sF))
           = trace sF @ map EUser users"
        using logs_as_user_setup_context[OF user] by blast
      have trF: "trace sF = trace sE @ replicate k2 (EWrapGrad (level i2))" by (simp add: sF_def)
      have w': "wrap_outputs_maintaining_identity out (Node PyTuple U) (Node PyTuple operands)
                  (level i2)
                  ((push_dynamic_layer_stack i2 s2)\<lparr>fwd_grad_mode := False, grad_mode := False\<rparr>)
                = (Inr result, sF)"
        using w unfolding sF_def sE_def .
      obtain r4 s4 where sc: "setup_context f (next_id s) result operands sF = (r4, s4)"
        by (rule prod.exhaust)
      have "snd (custom_function_call f operands s) = fin s4"
        unfolding one call using Inr w' sc by (cases r4) simp_all
      then have "trace (snd (custom_function_call f operands s))
              = trace (snd (setup_context f (next_id s) result operands sF))"
        using sc by (simp add: trfin)
      then have "trace (snd (custom_function_call f operands s)) =
              trace s
              @ replicate n2 (EUnwrapGrad (level i2))
              @ [ELower (level i2)]
              @ replicate n1 (EUnwrapBatched (level i1))
              @ [ELower (level i1)] @ map EUser us @ [ERestore (level i1)]
              @ replicate k1 (EAddBatchDim (level i1))
              @ [ERestore (level i2)]
              @ replicate k2 (EWrapGrad (level i2))
              @ map EUser users"
        unfolding u trF trE tr2 tr1 by simp
      then show ?thesis using Inr call
        by (intro exI[of _ us] exI[of _ k1] exI[of _ k2] exI[of _ users]) (simp add: k2_def)
    qed
  qed
  show ?thesis
    using one two three four unfolding n1_def n2_def by blast
qed

lemma logs_as_user_ex_f: "logs_as_user ex_f"
proof -
  have a: "only_user_events (ex_apply operands)" for operands
    unfolding only_user_events_def
    by (intro allI exI[of _ "[''apply'']"]) (simp add: ex_apply_def log_def)
  have v: "only_user_events (ex_vmap info in_dims operands)" for info in_dims operands
    unfolding only_user_events_def
    by (intro allI exI[of _ "[''vmap'']"]) (simp add: ex_vmap_def log_def)
  have r: "only_user_events (ret x)" for x :: "pyobj pytree"
    unfolding only_user_events_def
    by (intro allI exI[of _ "[]"]) (simp add: ret_def)
  show ?thesis
    by (simp add: logs_as_user_def ex_f_def a v r)
qed

theorem custom_function_call_grad_over_vmap_order_witness:
  "dynamic_layer_stack (ex_state [ex_interp Grad 2, ex_interp Vmap 1])
     = [ex_interp Grad 2, ex_interp Vmap 1]
   \<and> key (ex_interp Grad 2) = Grad \<and> key (ex_interp Vmap 1) = Vmap
   \<and> vmap ex_f = Some ex_vmap \<and> logs_as_user ex_f
   \<and> map (map_pytree (grad_value (level (ex_interp Grad 2)))) [Leaf ex_xgb] = [Leaf ex_xb]
   \<and> custom_function_call ex_f [Leaf ex_xgb] (ex_state [ex_interp Grad 2, ex_interp Vmap 1])
       = (Inr (Node PyTuple [Leaf ex_xgb, Leaf (TensorWrapper 13 (BatchedTensor 12 ex_y0 0 1) 2)]),
          (ex_state [ex_interp Grad 2, ex_interp Vmap 1])
            \<lparr>next_id := 14,
             trace := [EUnwrapGrad 2, ELower 2, EUnwrapBatched 1, ELower 1, EUser ''vmap'',
                       ERestore 1, EAddBatchDim 1, EAddBatchDim 1, ERestore 2, EWrapGrad 2]\<rparr>)
   \<and> (\<exists>us k1 k2 users.
         trace (snd (custom_function_call ex_f [Leaf ex_xgb]
                       (ex_state [ex_interp Grad 2, ex_interp Vmap 1]))) =
           trace (ex_state [ex_interp Grad 2, ex_interp Vmap 1])
           @ replicate 1 (EUnwrapGrad 2) @ [ELower 2]
           @ replicate 1 (EUnwrapBatched 1)
           @ [ELower 1] @ map EUser us @ [ERestore 1]
           @ replicate k1 (EAddBatchDim 1)
           @ [ERestore 2]
           @ replicate k2 (EWrapGrad 2)
           @ map EUser users)"
proof -
  let ?s = "ex_state [ex_interp Grad 2, ex_interp Vmap 1]"
  have st: "dynamic_layer_stack ?s = [ex_interp Grad 2, ex_interp Vmap 1]"
    by (simp add: ex_state_def)
  have kg: "key (ex_interp Grad 2) = Grad" and kv: "key (ex_interp Vmap 1) = Vmap"
    by (simp_all add: ex_interp_def)
  have v: "vmap ex_f = Some ex_vmap" by (simp add: ex_f_def)
  have U: "map (map_pytree (grad_value (level (ex_interp Grad 2)))) [Leaf ex_xgb] = [Leaf ex_xb]"
    by (simp add: ex_xgb_def ex_interp_def)
  have run: "custom_function_call ex_f [Leaf ex_xgb] ?s
       = (Inr (Node PyTuple [Leaf ex_xgb, Leaf (TensorWrapper 13 (BatchedTensor 12 ex_y0 0 1) 2)]),
          ?s\<lparr>next_id := 14,
             trace := [EUnwrapGrad 2, ELower 2, EUnwrapBatched 1, ELower 1, EUser ''vmap'',
                       ERestore 1, EAddBatchDim 1, EAddBatchDim 1, ERestore 2, EWrapGrad 2]\<rparr>)"
    by (simp add: rule_defs run_defs ex_defs ex_xb_def ex_xgb_def ex_interp_def ex_f_def ex_vmap_def
          tensor_count_def)
  note th = custom_function_call_grad_over_vmap_order
              [OF st kg kv refl refl refl refl, of ex_f "[Leaf ex_xgb]"]
  from th have "\<forall>g. vmap ex_f = Some g \<and> logs_as_user ex_f \<longrightarrow>
         (\<exists>us k1 k2 users.
            trace (snd (custom_function_call ex_f [Leaf ex_xgb] ?s)) =
              trace ?s
              @ replicate (tensor_count (concat (map tree_leaves [Leaf ex_xgb])))
                  (EUnwrapGrad (level (ex_interp Grad 2)))
              @ [ELower (level (ex_interp Grad 2))]
              @ replicate (tensor_count (concat (map tree_leaves
                    (map (map_pytree (grad_value (level (ex_interp Grad 2)))) [Leaf ex_xgb]))))
                  (EUnwrapBatched (level (ex_interp Vmap 1)))
              @ [ELower (level (ex_interp Vmap 1))] @ map EUser us @ [ERestore (level (ex_interp Vmap 1))]
              @ replicate k1 (EAddBatchDim (level (ex_interp Vmap 1)))
              @ [ERestore (level (ex_interp Grad 2))]
              @ replicate k2 (EWrapGrad (level (ex_interp Grad 2)))
              @ map EUser users)"
    by blast
  then obtain us k1 k2 users where
     "trace (snd (custom_function_call ex_f [Leaf ex_xgb] ?s)) =
              trace ?s
              @ replicate (tensor_count (concat (map tree_leaves [Leaf ex_xgb])))
                  (EUnwrapGrad (level (ex_interp Grad 2)))
              @ [ELower (level (ex_interp Grad 2))]
              @ replicate (tensor_count (concat (map tree_leaves
                    (map (map_pytree (grad_value (level (ex_interp Grad 2)))) [Leaf ex_xgb]))))
                  (EUnwrapBatched (level (ex_interp Vmap 1)))
              @ [ELower (level (ex_interp Vmap 1))] @ map EUser us @ [ERestore (level (ex_interp Vmap 1))]
              @ replicate k1 (EAddBatchDim (level (ex_interp Vmap 1)))
              @ [ERestore (level (ex_interp Grad 2))]
              @ replicate k2 (EWrapGrad (level (ex_interp Grad 2)))
              @ map EUser users"
    using v logs_as_user_ex_f by blast
  then have shape: "\<exists>us k1 k2 users.
         trace (snd (custom_function_call ex_f [Leaf ex_xgb] ?s)) =
           trace ?s
           @ replicate 1 (EUnwrapGrad 2) @ [ELower 2]
           @ replicate 1 (EUnwrapBatched 1)
           @ [ELower 1] @ map EUser us @ [ERestore 1]
           @ replicate k1 (EAddBatchDim 1)
           @ [ERestore 2]
           @ replicate k2 (EWrapGrad 2)
           @ map EUser users"
    unfolding U
    by (intro exI[of _ us] exI[of _ k1] exI[of _ k2] exI[of _ users])
       (simp add: ex_interp_def ex_xgb_def ex_xb_def)
  show ?thesis
    using st kg kv v logs_as_user_ex_f U run shape by blast
qed

section \<open>Later pairs win in the identity dictionary\<close>

lemma preserve_object_identity_leaf:
  assumes "length (tree_leaves unwrapped_outputs) \<le> length (tree_leaves outputs)"
    and "i < length (tree_leaves unwrapped_outputs)"
  shows "\<exists>result.
     preserve_object_identity outputs inputs unwrapped_outputs unwrapped_inputs s = (Inr result, s)
     \<and> tree_structure result = tree_structure unwrapped_outputs
     \<and> length (tree_leaves result) = length (tree_leaves unwrapped_outputs)
     \<and> tree_leaves result ! i =
         preserve_output (id_to_orig (tree_leaves unwrapped_inputs) (tree_leaves inputs))
           (tree_leaves outputs ! i, tree_leaves unwrapped_outputs ! i)"
proof -
  obtain result where r:
    "preserve_object_identity outputs inputs unwrapped_outputs unwrapped_inputs s = (Inr result, s)"
    "tree_leaves result =
         map (preserve_output (id_to_orig (tree_leaves unwrapped_inputs) (tree_leaves inputs)))
           (zip (tree_leaves outputs) (tree_leaves unwrapped_outputs))"
    "tree_structure result = tree_structure unwrapped_outputs"
    using preserve_object_identity_effect[OF assms(1)] by blast
  show ?thesis
    using r assms by (intro exI[of _ result]) simp
qed

lemma wrap_outputs_maintaining_identity_leaf:
  assumes "i < length (tree_leaves outputs)"
  shows "\<exists>result s'.
     wrap_outputs_maintaining_identity outputs unwrapped_inputs orig_inputs lvl s = (Inr result, s')
     \<and> (\<forall>v. is_Tensor (tree_leaves outputs ! i)
              \<and> id_to_orig (tree_leaves unwrapped_inputs) (tree_leaves orig_inputs)
                   (oid (tree_leaves outputs ! i)) = Some v
            \<longrightarrow> tree_leaves result ! i = v)"
proof -
  obtain result s' where r:
    "wrap_outputs_maintaining_identity outputs unwrapped_inputs orig_inputs lvl s = (Inr result, s')"
    "tree_leaves result =
       wrapped_from (id_to_orig (tree_leaves unwrapped_inputs) (tree_leaves orig_inputs))
         lvl (next_id s) (tree_leaves outputs)"
    using wrap_outputs_maintaining_identity_effect by blast
  show ?thesis
    using r assms by (intro exI[of _ result] exI[of _ s']) (simp add: wrapped_from_nth)
qed

text \<open>
  C10: in both helpers the dictionary from the identity of an unwrapped input to the
  original input is filled in flattening order, so when one unwrapped object is paired
  with several original inputs, an output aliasing it becomes the original input of the
  last such pair.
\<close>

theorem identity_dict_last_pair_wins:
  "(\<forall>i j. i < length (tree_leaves outputs) \<and> is_Tensor (tree_leaves outputs ! i)
         \<and> j < length (tree_leaves unwrapped_inputs) \<and> j < length (tree_leaves orig_inputs)
         \<and> oid (tree_leaves unwrapped_inputs ! j) = oid (tree_leaves outputs ! i)
         \<and> (\<forall>j'. j < j' \<and> j' < length (tree_leaves unwrapped_inputs)
                  \<and> j' < length (tree_leaves orig_inputs)
                \<longrightarrow> oid (tree_leaves unwrapped_inputs ! j') \<noteq> oid (tree_leaves outputs ! i))
      \<longrightarrow> (\<exists>result s'.
             wrap_outputs_maintaining_identity outputs unwrapped_inputs orig_inputs lvl s
               = (Inr result, s')
             \<and> tree_leaves result ! i = tree_leaves orig_inputs ! j))
   \<and> (\<forall>i j. length (tree_leaves unwrapped_outputs) \<le> length (tree_leaves outputs)
         \<and> i < length (tree_leaves unwrapped_outputs) \<and> is_Tensor (tree_leaves outputs ! i)
         \<and> j < length (tree_leaves unwrapped_inputs) \<and> j < length (tree_leaves orig_inputs)
         \<and> oid (tree_leaves unwrapped_inputs ! j) = oid (tree_leaves unwrapped_outputs ! i)
         \<and> (\<forall>j'. j < j' \<and> j' < length (tree_leaves unwrapped_inputs)
                  \<and> j' < length (tree_leaves orig_inputs)
                \<longrightarrow> oid (tree_leaves unwrapped_inputs ! j') \<noteq> oid (tree_leaves unwrapped_outputs ! i))
      \<longrightarrow> (\<exists>result.
             preserve_object_identity outputs orig_inputs unwrapped_outputs unwrapped_inputs s
               = (Inr result, s)
             \<and> tree_leaves result ! i = tree_leaves orig_inputs ! j))"
proof (intro conjI allI impI)
  fix i j
  assume a: "i < length (tree_leaves outputs) \<and> is_Tensor (tree_leaves outputs ! i)
         \<and> j < length (tree_leaves unwrapped_inputs) \<and> j < length (tree_leaves orig_inputs)
         \<and> oid (tree_leaves unwrapped_inputs ! j) = oid (tree_leaves outputs ! i)
         \<and> (\<forall>j'. j < j' \<and> j' < length (tree_leaves unwrapped_inputs)
                  \<and> j' < length (tree_leaves orig_inputs)
                \<longrightarrow> oid (tree_leaves unwrapped_inputs ! j') \<noteq> oid (tree_leaves outputs ! i))"
  then have d: "id_to_orig (tree_leaves unwrapped_inputs) (tree_leaves orig_inputs)
                  (oid (tree_leaves outputs ! i)) = Some (tree_leaves orig_inputs ! j)"
    by (intro id_to_orig_last) auto
  from a have i: "i < length (tree_leaves outputs)" by simp
  show "\<exists>result s'.
             wrap_outputs_maintaining_identity outputs unwrapped_inputs orig_inputs lvl s
               = (Inr result, s')
             \<and> tree_leaves result ! i = tree_leaves orig_inputs ! j"
    using wrap_outputs_maintaining_identity_leaf[OF i, of unwrapped_inputs orig_inputs lvl s] a d
    by blast
next
  fix i j
  assume a: "length (tree_leaves unwrapped_outputs) \<le> length (tree_leaves outputs)
         \<and> i < length (tree_leaves unwrapped_outputs) \<and> is_Tensor (tree_leaves outputs ! i)
         \<and> j < length (tree_leaves unwrapped_inputs) \<and> j < length (tree_leaves orig_inputs)
         \<and> oid (tree_leaves unwrapped_inputs ! j) = oid (tree_leaves unwrapped_outputs ! i)
         \<and> (\<forall>j'. j < j' \<and> j' < length (tree_leaves unwrapped_inputs)
                  \<and> j' < length (tree_leaves orig_inputs)
                \<longrightarrow> oid (tree_leaves unwrapped_inputs ! j') \<noteq> oid (tree_leaves unwrapped_outputs ! i))"
  then have d: "id_to_orig (tree_leaves unwrapped_inputs) (tree_leaves orig_inputs)
                  (oid (tree_leaves unwrapped_outputs ! i)) = Some (tree_leaves orig_inputs ! j)"
    by (intro id_to_orig_last) auto
  from a have l: "length (tree_leaves unwrapped_outputs) \<le> length (tree_leaves outputs)"
    and i: "i < length (tree_leaves unwrapped_outputs)" by simp_all
  show "\<exists>result.
             preserve_object_identity outputs orig_inputs unwrapped_outputs unwrapped_inputs s
               = (Inr result, s)
             \<and> tree_leaves result ! i = tree_leaves orig_inputs ! j"
    using preserve_object_identity_leaf[OF l i, of orig_inputs unwrapped_inputs s] a d
    by (auto simp: preserve_output_def)
qed

theorem identity_dict_last_pair_wins_witness:
  "is_Tensor ex_x0
   \<and> oid (tree_leaves (Node PyTuple [Leaf ex_x0, Leaf ex_x0]) ! 0) = oid ex_x0
   \<and> oid (tree_leaves (Node PyTuple [Leaf ex_x0, Leaf ex_x0]) ! 1) = oid ex_x0
   \<and> ex_x1 \<noteq> ex_x2 \<and> ex_xb \<noteq> ex_xb2
   \<and> wrap_outputs_maintaining_identity (Node PyTuple [Leaf ex_x0])
        (Node PyTuple [Leaf ex_x0, Leaf ex_x0]) (Node PyTuple [Leaf ex_x1, Leaf ex_x2]) 2 (ex_state [])
     = (Inr (Node PyTuple [Leaf ex_x2]), ex_state [])
   \<and> preserve_object_identity (Node PyTuple [Leaf (BatchedTensor 11 ex_x0 0 1)])
        (Node PyTuple [Leaf ex_xb, Leaf ex_xb2]) (Node PyTuple [Leaf ex_x0])
        (Node PyTuple [Leaf ex_x0, Leaf ex_x0]) (ex_state [])
     = (Inr (Node PyTuple [Leaf ex_xb2]), ex_state [])"
proof -
  let ?out = "Node PyTuple [Leaf ex_x0]" and ?u = "Node PyTuple [Leaf ex_x0, Leaf ex_x0]"
  let ?o = "Node PyTuple [Leaf ex_x1, Leaf ex_x2]"
  have h: "0 < length (tree_leaves ?out) \<and> is_Tensor (tree_leaves ?out ! 0)
         \<and> 1 < length (tree_leaves ?u) \<and> 1 < length (tree_leaves ?o)
         \<and> oid (tree_leaves ?u ! 1) = oid (tree_leaves ?out ! 0)
         \<and> (\<forall>j'. 1 < j' \<and> j' < length (tree_leaves ?u) \<and> j' < length (tree_leaves ?o)
                \<longrightarrow> oid (tree_leaves ?u ! j') \<noteq> oid (tree_leaves ?out ! 0))"
    by (auto simp: ex_defs)
  have "\<exists>result s'. wrap_outputs_maintaining_identity ?out ?u ?o 2 (ex_state []) = (Inr result, s')
          \<and> tree_leaves result ! 0 = tree_leaves ?o ! 1"
    using identity_dict_last_pair_wins[of ?out ?u ?o 2 "ex_state []" ?out, THEN conjunct1,
            rule_format, OF h] .
  then obtain result s' where
    "wrap_outputs_maintaining_identity ?out ?u ?o 2 (ex_state []) = (Inr result, s')"
    "tree_leaves result ! 0 = ex_x2"
    by auto
  moreover have "wrap_outputs_maintaining_identity ?out ?u ?o 2 (ex_state [])
                   = (Inr (Node PyTuple [Leaf ex_x2]), ex_state [])"
    by (simp add: run_defs ex_defs ex_x2_def)
  moreover have "preserve_object_identity (Node PyTuple [Leaf (BatchedTensor 11 ex_x0 0 1)])
        (Node PyTuple [Leaf ex_xb, Leaf ex_xb2]) (Node PyTuple [Leaf ex_x0])
        (Node PyTuple [Leaf ex_x0, Leaf ex_x0]) (ex_state [])
     = (Inr (Node PyTuple [Leaf ex_xb2]), ex_state [])"
    by (simp add: run_defs rule_defs ex_defs ex_xb_def ex_xb2_def)
  ultimately show ?thesis
    by (simp add: ex_defs ex_x2_def ex_xb_def ex_xb2_def)
qed

section \<open>Identity preservation in the Vmap rule\<close>

text \<open>
  C5, as stated, fails: the user's \<open>vmap\<close> returned its unwrapped input \<open>ex_x0\<close>; rewrapping
  made the new object \<open>BatchedTensor 11 ex_x0 0 1\<close>, which is none of the wrapped inputs;
  the code returns the original wrapped input \<open>ex_xb\<close> because it compares the unwrapped
  output with the unwrapped input, whereas comparing wrapped with wrapped leaves the new
  wrapper in place.
\<close>

theorem preserve_object_identity_not_wrapped_against_wrapped:
  "preserve_object_identity (Node PyTuple [Leaf (BatchedTensor 11 ex_x0 0 1)])
      (Node PyTuple [Leaf ex_xb]) (Node PyTuple [Leaf ex_x0]) (Node PyTuple [Leaf ex_x0]) (ex_state [])
     = (Inr (Node PyTuple [Leaf ex_xb]), ex_state [])
   \<and> preserve_object_identity_wrapped_against_wrapped (Node PyTuple [Leaf (BatchedTensor 11 ex_x0 0 1)])
      (Node PyTuple [Leaf ex_xb]) (Node PyTuple [Leaf ex_x0]) (Node PyTuple [Leaf ex_x0]) (ex_state [])
     = (Inr (Node PyTuple [Leaf (BatchedTensor 11 ex_x0 0 1)]), ex_state [])
   \<and> preserve_object_identity (Node PyTuple [Leaf (BatchedTensor 11 ex_x0 0 1)])
      (Node PyTuple [Leaf ex_xb]) (Node PyTuple [Leaf ex_x0]) (Node PyTuple [Leaf ex_x0]) (ex_state [])
     \<noteq> preserve_object_identity_wrapped_against_wrapped (Node PyTuple [Leaf (BatchedTensor 11 ex_x0 0 1)])
      (Node PyTuple [Leaf ex_xb]) (Node PyTuple [Leaf ex_x0]) (Node PyTuple [Leaf ex_x0]) (ex_state [])"
  by (simp add: preserve_object_identity_wrapped_against_wrapped_def run_defs rule_defs ex_defs
        ex_xb_def)

text \<open>
  C5, amended: in the general path of the Vmap rule the result is that of
  \<open>preserve_object_identity\<close> on the rewrapped output, the original operands, the
  unwrapped output and the unwrapped operands. That step always returns, with the shape
  of the unwrapped output, and changes no state. It compares, by identity, each unwrapped
  output with the unwrapped inputs: a tensor leaf whose unwrapped output is the same
  object as an unwrapped input becomes an original wrapped input paired with that
  object; every other leaf is the rewrapped output.
\<close>

theorem preserve_object_identity_leaves:
  "(\<forall>g unwrapped_operands in_dims s1 unwrapped_output out_dims s2 output s3.
       vmap f = Some g
       \<and> unwrap_batched (Node PyTuple operands) (level interpreter) s
           = (Inr (unwrapped_operands, in_dims), s1)
       \<and> \<not> tree_all (\<lambda>dim. dim = None) in_dims
       \<and> lower interpreter (g (VmapInfo (batch_size interpreter)) in_dims (star unwrapped_operands)) s1
           = (Inr (unwrapped_output, out_dims), s2)
       \<and> wrap_batched unwrapped_output out_dims (level interpreter) s2 = (Inr output, s3)
     \<longrightarrow> custom_function_call_vmap entry interpreter f operands s
           = preserve_object_identity output (Node PyTuple operands) unwrapped_output
               unwrapped_operands s3)
   \<and> (length (tree_leaves unwrapped_outputs) \<le> length (tree_leaves outputs) \<longrightarrow>
        (\<exists>result.
           preserve_object_identity outputs inputs unwrapped_outputs unwrapped_inputs t = (Inr result, t)
           \<and> tree_structure result = tree_structure unwrapped_outputs
           \<and> length (tree_leaves result) = length (tree_leaves unwrapped_outputs)
           \<and> (\<forall>i<length (tree_leaves unwrapped_outputs).
                 (\<not> is_Tensor (tree_leaves outputs ! i) \<longrightarrow>
                    tree_leaves result ! i = tree_leaves outputs ! i)
               \<and> (is_Tensor (tree_leaves outputs ! i) \<longrightarrow>
                    ((\<exists>j. j < length (tree_leaves unwrapped_inputs) \<and> j < length (tree_leaves inputs)
                          \<and> oid (tree_leaves unwrapped_inputs ! j)
                              = oid (tree_leaves unwrapped_outputs ! i)) \<longrightarrow>
                     (\<exists>j. j < length (tree_leaves unwrapped_inputs) \<and> j < length (tree_leaves inputs)
                          \<and> oid (tree_leaves unwrapped_inputs ! j)
                              = oid (tree_leaves unwrapped_outputs ! i)
                          \<and> tree_leaves result ! i = tree_leaves inputs ! j))
                  \<and> ((\<forall>j. j < length (tree_leaves unwrapped_inputs) \<and> j < length (tree_leaves inputs)
                          \<longrightarrow> oid (tree_leaves unwrapped_inputs ! j)
                                \<noteq> oid (tree_leaves unwrapped_outputs ! i)) \<longrightarrow>
                     tree_leaves result ! i = tree_leaves outputs ! i)))))"
proof (intro conjI allI impI)
  fix g unwrapped_operands in_dims s1 unwrapped_output out_dims s2 out s3
  assume a: "vmap f = Some g
       \<and> unwrap_batched (Node PyTuple operands) (level interpreter) s
           = (Inr (unwrapped_operands, in_dims), s1)
       \<and> \<not> tree_all (\<lambda>dim. dim = None) in_dims
       \<and> lower interpreter (g (VmapInfo (batch_size interpreter)) in_dims (star unwrapped_operands)) s1
           = (Inr (unwrapped_output, out_dims), s2)
       \<and> wrap_batched unwrapped_output out_dims (level interpreter) s2 = (Inr out, s3)"
  then show "custom_function_call_vmap entry interpreter f operands s
           = preserve_object_identity out (Node PyTuple operands) unwrapped_output
               unwrapped_operands s3"
    by (simp add: custom_function_call_vmap_def bnd_def Let_def)
next
  let ?us = "tree_leaves unwrapped_inputs" and ?is = "tree_leaves inputs"
  let ?uo = "tree_leaves unwrapped_outputs" and ?xs = "tree_leaves outputs"
  let ?d = "id_to_orig ?us ?is"
  assume len: "length ?uo \<le> length ?xs"
  obtain result where r:
    "preserve_object_identity outputs inputs unwrapped_outputs unwrapped_inputs t = (Inr result, t)"
    "tree_leaves result = map (preserve_output ?d) (zip ?xs ?uo)"
    "tree_structure result = tree_structure unwrapped_outputs"
    using preserve_object_identity_effect[OF len] by blast
  have leaf: "(\<not> is_Tensor (?xs ! i) \<longrightarrow> tree_leaves result ! i = ?xs ! i)
       \<and> (is_Tensor (?xs ! i) \<longrightarrow>
            ((\<exists>j. j < length ?us \<and> j < length ?is \<and> oid (?us ! j) = oid (?uo ! i)) \<longrightarrow>
             (\<exists>j. j < length ?us \<and> j < length ?is \<and> oid (?us ! j) = oid (?uo ! i)
                  \<and> tree_leaves result ! i = ?is ! j))
          \<and> ((\<forall>j. j < length ?us \<and> j < length ?is \<longrightarrow> oid (?us ! j) \<noteq> oid (?uo ! i)) \<longrightarrow>
             tree_leaves result ! i = ?xs ! i))"
    if i: "i < length ?uo" for i
  proof -
    have ri: "tree_leaves result ! i = preserve_output ?d (?xs ! i, ?uo ! i)"
      using i len by (simp add: r(2))
    show ?thesis
    proof (cases "?d (oid (?uo ! i))")
      case None
      then have "\<forall>j. j < length ?us \<and> j < length ?is \<longrightarrow> oid (?us ! j) \<noteq> oid (?uo ! i)"
        by (simp add: id_to_orig_None)
      then show ?thesis using None ri by (auto simp: preserve_output_def)
    next
      case (Some v)
      then obtain j where "j < length ?us" "j < length ?is" "oid (?us ! j) = oid (?uo ! i)" "v = ?is ! j"
        using id_to_orig_Some[OF Some] by blast
      then show ?thesis using Some ri by (auto simp: preserve_output_def)
    qed
  qed
  show "\<exists>result.
           preserve_object_identity outputs inputs unwrapped_outputs unwrapped_inputs t = (Inr result, t)
           \<and> tree_structure result = tree_structure unwrapped_outputs
           \<and> length (tree_leaves result) = length ?uo
           \<and> (\<forall>i<length ?uo.
                 (\<not> is_Tensor (?xs ! i) \<longrightarrow> tree_leaves result ! i = ?xs ! i)
               \<and> (is_Tensor (?xs ! i) \<longrightarrow>
                    ((\<exists>j. j < length ?us \<and> j < length ?is \<and> oid (?us ! j) = oid (?uo ! i)) \<longrightarrow>
                     (\<exists>j. j < length ?us \<and> j < length ?is \<and> oid (?us ! j) = oid (?uo ! i)
                          \<and> tree_leaves result ! i = ?is ! j))
                  \<and> ((\<forall>j. j < length ?us \<and> j < length ?is \<longrightarrow> oid (?us ! j) \<noteq> oid (?uo ! i)) \<longrightarrow>
                     tree_leaves result ! i = ?xs ! i)))"
    using r leaf len by (intro exI[of _ result]) simp
qed

theorem preserve_object_identity_leaves_witness:
  "vmap ex_f = Some ex_vmap
   \<and> unwrap_batched (Node PyTuple [Leaf ex_xb]) (level (ex_interp Vmap 1)) (ex_state [ex_interp Vmap 1])
       = (Inr (Node PyTuple [Leaf ex_x0], Node PyTuple [Leaf (Some 0)]),
          (ex_state [ex_interp Vmap 1])\<lparr>trace := [EUnwrapBatched 1]\<rparr>)
   \<and> \<not> tree_all (\<lambda>dim. dim = None) (Node PyTuple [Leaf (Some (0::int))])
   \<and> lower (ex_interp Vmap 1)
        (ex_vmap (VmapInfo (batch_size (ex_interp Vmap 1))) (Node PyTuple [Leaf (Some 0)])
           (star (Node PyTuple [Leaf ex_x0])))
        ((ex_state [ex_interp Vmap 1])\<lparr>trace := [EUnwrapBatched 1]\<rparr>)
       = (Inr (Node PyTuple [Leaf ex_x0, Leaf ex_y0], Node PyTuple [Leaf (Some 0), Leaf (Some 0)]),
          (ex_state [ex_interp Vmap 1])
            \<lparr>trace := [EUnwrapBatched 1, ELower 1, EUser ''vmap'', ERestore 1]\<rparr>)
   \<and> wrap_batched (Node PyTuple [Leaf ex_x0, Leaf ex_y0]) (Node PyTuple [Leaf (Some 0), Leaf (Some 0)])
        (level (ex_interp Vmap 1))
        ((ex_state [ex_interp Vmap 1])
            \<lparr>trace := [EUnwrapBatched 1, ELower 1, EUser ''vmap'', ERestore 1]\<rparr>)
       = (Inr (Node PyTuple [Leaf (BatchedTensor 10 ex_x0 0 1), Leaf (BatchedTensor 11 ex_y0 0 1)]),
          (ex_state [ex_interp Vmap 1])
            \<lparr>next_id := 12,
             trace := [EUnwrapBatched 1, ELower 1, EUser ''vmap'', ERestore 1,
                       EAddBatchDim 1, EAddBatchDim 1]\<rparr>)
   \<and> custom_function_call_vmap custom_function_call (ex_interp Vmap 1) ex_f [Leaf ex_xb]
        (ex_state [ex_interp Vmap 1])
     = (Inr (Node PyTuple [Leaf ex_xb, Leaf (BatchedTensor 11 ex_y0 0 1)]),
        (ex_state [ex_interp Vmap 1])
          \<lparr>next_id := 12,
           trace := [EUnwrapBatched 1, ELower 1, EUser ''vmap'', ERestore 1,
                     EAddBatchDim 1, EAddBatchDim 1]\<rparr>)"
proof -
  let ?s = "ex_state [ex_interp Vmap 1]"
  let ?s1 = "?s\<lparr>trace := [EUnwrapBatched 1]\<rparr>"
  let ?s2 = "?s\<lparr>trace := [EUnwrapBatched 1, ELower 1, EUser ''vmap'', ERestore 1]\<rparr>"
  let ?s3 = "?s\<lparr>next_id := 12,
               trace := [EUnwrapBatched 1, ELower 1, EUser ''vmap'', ERestore 1,
                         EAddBatchDim 1, EAddBatchDim 1]\<rparr>"
  let ?uo = "Node PyTuple [Leaf ex_x0, Leaf ex_y0]"
  let ?out = "Node PyTuple [Leaf (BatchedTensor 10 ex_x0 0 1), Leaf (BatchedTensor 11 ex_y0 0 1)]"
  have v: "vmap ex_f = Some ex_vmap" by (simp add: ex_f_def)
  have u: "unwrap_batched (Node PyTuple [Leaf ex_xb]) (level (ex_interp Vmap 1)) ?s
             = (Inr (Node PyTuple [Leaf ex_x0], Node PyTuple [Leaf (Some 0)]), ?s1)"
    by (simp add: unwrap_batched_eq ex_defs ex_xb_def ex_interp_def)
  have n: "\<not> tree_all (\<lambda>dim. dim = None) (Node PyTuple [Leaf (Some (0::int))])"
    by (simp add: tree_all_def)
  have l: "lower (ex_interp Vmap 1)
        (ex_vmap (VmapInfo (batch_size (ex_interp Vmap 1))) (Node PyTuple [Leaf (Some 0)])
           (star (Node PyTuple [Leaf ex_x0]))) ?s1
       = (Inr (?uo, Node PyTuple [Leaf (Some 0), Leaf (Some 0)]), ?s2)"
    by (simp add: rule_defs ex_vmap_def ex_state_def ex_interp_def log_def)
  have w: "wrap_batched ?uo (Node PyTuple [Leaf (Some 0), Leaf (Some 0)]) (level (ex_interp Vmap 1)) ?s2
       = (Inr ?out, ?s3)"
    by (simp add: rule_defs run_defs ex_defs ex_interp_def)
  have rule: "custom_function_call_vmap custom_function_call (ex_interp Vmap 1) ex_f [Leaf ex_xb] ?s
         = preserve_object_identity ?out (Node PyTuple [Leaf ex_xb]) ?uo (Node PyTuple [Leaf ex_x0]) ?s3"
    using preserve_object_identity_leaves
            [of ex_f "[Leaf ex_xb]" "ex_interp Vmap 1" ?s custom_function_call ?uo ?out
                "Node PyTuple [Leaf ex_xb]" "Node PyTuple [Leaf ex_x0]" ?s3,
             THEN conjunct1, rule_format, OF conjI[OF v conjI[OF u conjI[OF n conjI[OF l w]]]]]
    .
  have p: "preserve_object_identity ?out (Node PyTuple [Leaf ex_xb]) ?uo (Node PyTuple [Leaf ex_x0]) ?s3
             = (Inr (Node PyTuple [Leaf ex_xb, Leaf (BatchedTensor 11 ex_y0 0 1)]), ?s3)"
    by (simp add: run_defs rule_defs ex_defs ex_xb_def)
  show ?thesis
    using v u n l w rule p by simp
qed

end
